theory Spec2Isabelle
  imports Complex_Main
begin

section \<open>Values\<close>

text \<open>
  A Python float is an IEEE 754 double. A finite double is modelled by the real number it
  stands for, the two infinities and not-a-number are values of their own. The two zeros
  are one value: no comparison tells them apart, and Python raises on a division by
  either. A sum, a product or a quotient is the exact result rounded to the nearest
  double, a tie to the even mantissa, and an infinity when the rounded result is out of
  range: Python raises no OverflowError there.
\<close>

datatype pyfloat = Fin real | PInf | NInf | NaN

datatype pyerr = ZeroDivisionError | ValueError | TypeError | KeyError

text \<open>The number of binary digits of a natural number (\<open>int.bit_length\<close>).\<close>

fun bit_length :: "nat \<Rightarrow> nat" where
  "bit_length n = (if n = 0 then 0 else Suc (bit_length (n div 2)))"

declare bit_length.simps [simp del]

text \<open>\<open>2\<close> to the power \<open>e\<close>, for an integer \<open>e\<close>.\<close>

definition pow2 :: "int \<Rightarrow> real" where
  "pow2 e = (if 0 \<le> e then 2 ^ nat e else 1 / 2 ^ nat (- e))"

text \<open>The binary exponent of a positive real \<open>a\<close>: the \<open>e\<close> with \<open>2^e \<le> a < 2^(e + 1)\<close>.\<close>

definition exponent :: "real \<Rightarrow> int" where
  "exponent a =
     (if 1 \<le> a then int (bit_length (nat \<lfloor>a\<rfloor>)) - 1
      else - int (bit_length (nat (\<lceil>1 / a\<rceil> - 1))))"

text \<open>The integer nearest to \<open>t\<close>, the even one of the two when \<open>t\<close> lies half way.\<close>

definition round_even :: "real \<Rightarrow> int" where
  "round_even t =
     (let f = \<lfloor>t\<rfloor>; d = t - of_int f in
      if d < 1 / 2 then f else if 1 / 2 < d then f + 1 else if even f then f else f + 1)"

text \<open>
  The double nearest to a positive real \<open>a\<close>. A double has a mantissa of 53 binary digits,
  so the doubles around \<open>a\<close> are the multiples of \<open>2^q\<close> with \<open>q\<close> 52 below the exponent of
  \<open>a\<close>, and not below -1074, the spacing of the subnormal doubles. The greatest finite
  double is \<open>2^1024 - 2^971\<close>: a rounded result of \<open>2^1024\<close> or more is an infinity.
\<close>

definition rnd_pos :: "real \<Rightarrow> pyfloat" where
  "rnd_pos a =
     (let q = max (exponent a - 52) (- 1074);
          r = of_int (round_even (a / pow2 q)) * pow2 q
      in if 2 ^ 1024 \<le> r then PInf else Fin r)"

definition fneg :: "pyfloat \<Rightarrow> pyfloat" where
  "fneg x = (case x of Fin a \<Rightarrow> Fin (- a) | PInf \<Rightarrow> NInf | NInf \<Rightarrow> PInf | NaN \<Rightarrow> NaN)"

text \<open>The double nearest to a real: what an operation returns for the exact result \<open>x\<close>,
  and what the literal \<open>x\<close> denotes.\<close>

definition rnd :: "real \<Rightarrow> pyfloat" where
  "rnd x = (if x = 0 then Fin 0 else if 0 < x then rnd_pos x else fneg (rnd_pos (- x)))"

fun fadd :: "pyfloat \<Rightarrow> pyfloat \<Rightarrow> pyfloat" where
  "fadd NaN _ = NaN"
| "fadd _ NaN = NaN"
| "fadd (Fin a) (Fin b) = rnd (a + b)"
| "fadd PInf NInf = NaN"
| "fadd NInf PInf = NaN"
| "fadd PInf _ = PInf"
| "fadd _ PInf = PInf"
| "fadd NInf _ = NInf"
| "fadd _ NInf = NInf"

fun fmul :: "pyfloat \<Rightarrow> pyfloat \<Rightarrow> pyfloat" where
  "fmul NaN _ = NaN"
| "fmul _ NaN = NaN"
| "fmul (Fin a) (Fin b) = rnd (a * b)"
| "fmul (Fin a) PInf = (if a = 0 then NaN else if 0 < a then PInf else NInf)"
| "fmul (Fin a) NInf = (if a = 0 then NaN else if 0 < a then NInf else PInf)"
| "fmul PInf (Fin b) = (if b = 0 then NaN else if 0 < b then PInf else NInf)"
| "fmul NInf (Fin b) = (if b = 0 then NaN else if 0 < b then NInf else PInf)"
| "fmul PInf PInf = PInf"
| "fmul PInf NInf = NInf"
| "fmul NInf PInf = NInf"
| "fmul NInf NInf = PInf"

text \<open>Python's \<open>x / y\<close> on floats raises ZeroDivisionError when \<open>y\<close> is zero, whatever \<open>x\<close> is.\<close>

fun fdiv :: "pyfloat \<Rightarrow> pyfloat \<Rightarrow> pyerr + pyfloat" where
  "fdiv x (Fin b) =
     (if b = 0 then Inl ZeroDivisionError
      else case x of
        Fin a \<Rightarrow> Inr (rnd (a / b))
      | PInf \<Rightarrow> Inr (if 0 < b then PInf else NInf)
      | NInf \<Rightarrow> Inr (if 0 < b then NInf else PInf)
      | NaN \<Rightarrow> Inr NaN)"
| "fdiv NaN _ = Inr NaN"
| "fdiv _ NaN = Inr NaN"
| "fdiv (Fin a) _ = Inr (Fin 0)"
| "fdiv _ _ = Inr NaN"

text \<open>\<open>x < y\<close>; every comparison with not-a-number is false.\<close>

fun flt :: "pyfloat \<Rightarrow> pyfloat \<Rightarrow> bool" where
  "flt NaN _ = False"
| "flt _ NaN = False"
| "flt (Fin a) (Fin b) = (a < b)"
| "flt NInf NInf = False"
| "flt NInf _ = True"
| "flt _ NInf = False"
| "flt PInf _ = False"
| "flt _ PInf = True"

text \<open>\<open>x <= y\<close>.\<close>

fun fle :: "pyfloat \<Rightarrow> pyfloat \<Rightarrow> bool" where
  "fle NaN _ = False"
| "fle _ NaN = False"
| "fle (Fin a) (Fin b) = (a \<le> b)"
| "fle NInf _ = True"
| "fle _ PInf = True"
| "fle _ _ = False"

text \<open>\<open>x == 0\<close>.\<close>

fun feq0 :: "pyfloat \<Rightarrow> bool" where
  "feq0 (Fin a) = (a = 0)"
| "feq0 _ = False"

section \<open>Sample table and limits\<close>

text \<open>
  What a cell of the sample table can hold: \<open>CNone\<close> is None (or pandas' NA); \<open>CNum\<close> a
  number that \<open>float()\<close> converts, given by the float it converts to (a float,
  not-a-number included, or an int in the range of the floats); \<open>CStr\<close> a string; \<open>CObj\<close>
  any other scalar object, on which \<open>float()\<close> raises (TypeError, or OverflowError on an
  int beyond the range of the floats); and \<open>CArr\<close> a list or an array of two or more
  elements, which an object column can hold.
\<close>

datatype cell = CNone | CNum pyfloat | CStr string | CObj | CArr

text \<open>A row maps a column name to its cell; a table is the list of its rows, in order.\<close>

type_synonym row = "string \<rightharpoonup> cell"
type_synonym table = "row list"

text \<open>
  The limits dictionary, in insertion order: metal, and its standard (\<open>None\<close> is a JSON
  null). A list with distinct keys represents a dictionary.
\<close>

type_synonym limits = "(string \<times> pyfloat option) list"

text \<open>
  Python's \<open>float\<close> on a string is a parameter of the model, \<open>pf\<close>: \<open>pf s = None\<close> when
  \<open>float(s)\<close> raises ValueError.
\<close>

type_synonym parser = "string \<Rightarrow> pyfloat option"

text \<open>\<open>limits[m]\<close>.\<close>

definition dict_get :: "limits \<Rightarrow> string \<Rightarrow> pyerr + pyfloat option" where
  "dict_get limits m = (case map_of limits m of None \<Rightarrow> Inl KeyError | Some Si \<Rightarrow> Inr Si)"

text \<open>
  The truth value of \<open>pd.isna(val)\<close> in an \<open>if\<close>. On a list or an array \<open>pd.isna\<close> returns
  an array of booleans, and the truth value of an array of two or more elements raises
  ValueError.
\<close>

fun isna_truth :: "cell \<Rightarrow> pyerr + bool" where
  "isna_truth CNone = Inr True"
| "isna_truth (CNum x) = Inr (x = NaN)"
| "isna_truth (CStr s) = Inr False"
| "isna_truth CObj = Inr False"
| "isna_truth CArr = Inl ValueError"

text \<open>\<open>float(val)\<close>. Its caller catches every exception, whatever its class.\<close>

fun py_float :: "parser \<Rightarrow> cell \<Rightarrow> pyerr + pyfloat" where
  "py_float pf CNone = Inl TypeError"
| "py_float pf (CNum x) = Inr x"
| "py_float pf (CStr s) = (case pf s of None \<Rightarrow> Inl ValueError | Some x \<Rightarrow> Inr x)"
| "py_float pf CObj = Inl TypeError"
| "py_float pf CArr = Inl TypeError"

text \<open>\<open>row.get(col, None)\<close>.\<close>

definition row_get :: "row \<Rightarrow> string \<Rightarrow> cell" where
  "row_get row col = (case row col of None \<Rightarrow> CNone | Some v \<Rightarrow> v)"

text \<open>
  \<open>_safe_get\<close>: the test \<open>pd.isna(val)\<close> stands before the \<open>try\<close>, so what it raises
  leaves the function; what \<open>float(val)\<close> raises is caught and gives None.
\<close>

definition safe_get :: "parser \<Rightarrow> row \<Rightarrow> string \<Rightarrow> pyerr + pyfloat option" where
  "safe_get pf row col =
     (let val = row_get row col in
      case isna_truth val of
        Inl e \<Rightarrow> Inl e
      | Inr True \<Rightarrow> Inr None
      | Inr False \<Rightarrow> (case py_float pf val of Inl e \<Rightarrow> Inr None | Inr x \<Rightarrow> Inr (Some x)))"

section \<open>Loops that may raise\<close>

fun fold_err :: "('a \<Rightarrow> 's \<Rightarrow> 'e + 's) \<Rightarrow> 'a list \<Rightarrow> 's \<Rightarrow> 'e + 's" where
  "fold_err f [] s = Inr s"
| "fold_err f (x # xs) s = (case f x s of Inl e \<Rightarrow> Inl e | Inr s' \<Rightarrow> fold_err f xs s')"

fun map_err :: "('a \<Rightarrow> 'e + 'b) \<Rightarrow> 'a list \<Rightarrow> 'e + 'b list" where
  "map_err f [] = Inr []"
| "map_err f (x # xs) =
     (case f x of
        Inl e \<Rightarrow> Inl e
      | Inr y \<Rightarrow> (case map_err f xs of Inl e \<Rightarrow> Inl e | Inr ys \<Rightarrow> Inr (y # ys)))"

section \<open>The index engine\<close>

text \<open>The body of the loop over the metals in \<open>calculate_hmpi\<close>, on \<open>(Qi_sum, Wi_sum)\<close>.\<close>

definition hmpi_metal ::
  "parser \<Rightarrow> row \<Rightarrow> limits \<Rightarrow> string \<Rightarrow> string \<Rightarrow> pyfloat \<times> pyfloat \<Rightarrow> pyerr + (pyfloat \<times> pyfloat)"
where
  "hmpi_metal pf row limits weight_scheme m acc =
     (case safe_get pf row m of
        Inl e \<Rightarrow> Inl e
      | Inr Ci \<Rightarrow>
         (case dict_get limits m of
            Inl e \<Rightarrow> Inl e
          | Inr Si \<Rightarrow>
             (case (Ci, Si) of
                (Some c, Some s) \<Rightarrow>
                  if feq0 s then Inr acc
                  else
                    (case fdiv c s of
                       Inl e \<Rightarrow> Inl e
                     | Inr r \<Rightarrow>
                        (let Qi = fmul r (Fin 100) in
                         case (if weight_scheme = ''1/Si'' then fdiv (Fin 1) s else Inr (Fin 1)) of
                           Inl e \<Rightarrow> Inl e
                         | Inr Wi \<Rightarrow> Inr (fadd (fst acc) (fmul Qi Wi), fadd (snd acc) Wi)))
              | _ \<Rightarrow> Inr acc)))"

text \<open>One row of \<open>calculate_hmpi\<close>: the value appended to \<open>hmpi_vals\<close>.\<close>

definition hmpi_row :: "parser \<Rightarrow> limits \<Rightarrow> string \<Rightarrow> row \<Rightarrow> pyerr + pyfloat" where
  "hmpi_row pf limits weight_scheme row =
     (let metals = map fst limits in
      case fold_err (hmpi_metal pf row limits weight_scheme) metals (Fin 0, Fin 0) of
        Inl e \<Rightarrow> Inl e
      | Inr (Qi_sum, Wi_sum) \<Rightarrow> if flt (Fin 0) Wi_sum then fdiv Qi_sum Wi_sum else Inr NaN)"

definition calculate_hmpi :: "parser \<Rightarrow> table \<Rightarrow> limits \<Rightarrow> string \<Rightarrow> pyerr + pyfloat list" where
  "calculate_hmpi pf df limits weight_scheme = map_err (hmpi_row pf limits weight_scheme) df"

text \<open>The body of the loop in \<open>_row_mci\<close>, on \<open>(s, any_val)\<close>.\<close>

definition mci_metal ::
  "parser \<Rightarrow> row \<Rightarrow> limits \<Rightarrow> string \<Rightarrow> pyfloat \<times> bool \<Rightarrow> pyerr + (pyfloat \<times> bool)"
where
  "mci_metal pf row limits m acc =
     (case safe_get pf row m of
        Inl e \<Rightarrow> Inl e
      | Inr Ci \<Rightarrow>
         (case dict_get limits m of
            Inl e \<Rightarrow> Inl e
          | Inr Si \<Rightarrow>
             (case (Ci, Si) of
                (Some c, Some s) \<Rightarrow>
                  if feq0 s then Inr acc
                  else (case fdiv c s of Inl e \<Rightarrow> Inl e | Inr r \<Rightarrow> Inr (fadd (fst acc) r, True))
              | _ \<Rightarrow> Inr acc)))"

definition row_mci :: "parser \<Rightarrow> limits \<Rightarrow> row \<Rightarrow> pyerr + pyfloat" where
  "row_mci pf limits row =
     (let metals = map fst limits in
      case fold_err (mci_metal pf row limits) metals (Fin 0, False) of
        Inl e \<Rightarrow> Inl e
      | Inr (s, any_val) \<Rightarrow> Inr (if any_val then s else NaN))"

definition calculate_mci :: "parser \<Rightarrow> table \<Rightarrow> limits \<Rightarrow> pyerr + pyfloat list" where
  "calculate_mci pf df limits = map_err (row_mci pf limits) df"

text \<open>One entry of a column of \<open>calculate_pi_table\<close>.\<close>

definition pi_cell :: "parser \<Rightarrow> string \<Rightarrow> pyfloat option \<Rightarrow> row \<Rightarrow> pyerr + pyfloat" where
  "pi_cell pf m Si row =
     (case safe_get pf row m of
        Inl e \<Rightarrow> Inl e
      | Inr Ci \<Rightarrow>
         (case (Ci, Si) of
            (Some c, Some s) \<Rightarrow> if feq0 s then Inr NaN else fdiv c s
          | _ \<Rightarrow> Inr NaN))"

definition pi_column ::
  "parser \<Rightarrow> table \<Rightarrow> string \<times> pyfloat option \<Rightarrow> pyerr + (string \<times> pyfloat list)"
where
  "pi_column pf df item =
     (case map_err (pi_cell pf (fst item) (snd item)) df of
        Inl e \<Rightarrow> Inl e
      | Inr col \<Rightarrow> Inr (''PI_'' @ fst item, col))"

text \<open>The table of PI columns: column name and column, in the order of the limits.\<close>

definition calculate_pi_table ::
  "parser \<Rightarrow> table \<Rightarrow> limits \<Rightarrow> pyerr + (string \<times> pyfloat list) list"
where
  "calculate_pi_table pf df limits = map_err (pi_column pf df) limits"

section \<open>The classifier\<close>

definition categorize_hmpi :: "pyfloat \<Rightarrow> string" where
  "categorize_hmpi hmpi_value =
     (if hmpi_value = NaN then ''Unknown''
      else if flt hmpi_value (Fin 50) then ''Safe''
      else if fle (Fin 50) hmpi_value \<and> flt hmpi_value (Fin 100) then ''Low Pollution''
      else if fle (Fin 100) hmpi_value \<and> flt hmpi_value (Fin 200) then ''High Pollution''
      else ''Very High Pollution'')"

definition categorize_mci :: "pyfloat \<Rightarrow> string" where
  "categorize_mci mci_value =
     (if mci_value = NaN then ''Unknown''
      else if flt mci_value (Fin 1) then ''Safe''
      else if fle (Fin 1) mci_value \<and> flt mci_value (Fin 2) then ''Alert''
      else if fle (Fin 2) mci_value \<and> flt mci_value (Fin 6) then ''Moderately Affected''
      else ''Seriously Affected'')"

section \<open>Validation of the uploaded table\<close>

text \<open>
  For \<open>validate_dataframe\<close> the table is a data frame: columns by name, each with its
  dtype (numeric or not, what \<open>is_numeric_dtype\<close> tests) and its cells, and the number of
  rows. The function assigns to columns of the frame it is given, so the model returns
  the frame after the call beside the result, also when the call raises.
\<close>

record column =
  numeric :: bool
  cells :: "cell list"

record frame =
  nrows :: nat
  columns :: "string \<rightharpoonup> column"

record report =
  missing_columns :: "string list"
  non_numeric :: "string list"
  missing_coords :: nat
  rows :: nat
  median_magnitude :: "(string \<times> pyfloat) list"

text \<open>
  \<open>pd.to_numeric(series, errors="coerce")\<close>: a number stays, a string is parsed (\<open>pn\<close> is
  the parser of pandas, \<open>None\<close> where it fails), and every entry that cannot be converted
  becomes not-a-number. With this option the call does not raise on a column.
\<close>

fun coerce_cell :: "parser \<Rightarrow> cell \<Rightarrow> pyfloat" where
  "coerce_cell pn (CNum x) = x"
| "coerce_cell pn (CStr s) = (case pn s of None \<Rightarrow> NaN | Some x \<Rightarrow> x)"
| "coerce_cell pn _ = NaN"

definition to_numeric :: "parser \<Rightarrow> column \<Rightarrow> pyerr + column" where
  "to_numeric pn c = Inr \<lparr>numeric = True, cells = map (\<lambda>v. CNum (coerce_cell pn v)) (cells c)\<rparr>"

text \<open>The body of the first loop of \<open>validate_dataframe\<close>, on the frame and the report.\<close>

fun validate_column :: "parser \<Rightarrow> string \<Rightarrow> frame \<times> report \<Rightarrow> frame \<times> report" where
  "validate_column pn col (df, rep) =
     (case columns df col of
        None \<Rightarrow> (df, rep\<lparr>missing_columns := missing_columns rep @ [col]\<rparr>)
      | Some c \<Rightarrow>
          if \<not> numeric c then
            (case to_numeric pn c of
               Inr c' \<Rightarrow> (df\<lparr>columns := (columns df)(col \<mapsto> c')\<rparr>,
                          rep\<lparr>non_numeric := non_numeric rep @ [col]\<rparr>)
             | Inl e \<Rightarrow> (df, rep\<lparr>non_numeric := non_numeric rep @ [col]\<rparr>))
          else (df, rep))"

text \<open>\<open>isna\<close> on the entries of a column, and the count \<open>df[col].isna().sum()\<close>.\<close>

fun cell_isna :: "cell \<Rightarrow> bool" where
  "cell_isna CNone = True"
| "cell_isna (CNum x) = (x = NaN)"
| "cell_isna _ = False"

definition count_na :: "column \<Rightarrow> nat" where
  "count_na c = length (filter cell_isna (cells c))"

text \<open>\<open>abs\<close> of an entry; it raises TypeError on what is not a number.\<close>

fun cell_abs :: "cell \<Rightarrow> pyerr + pyfloat" where
  "cell_abs (CNum (Fin a)) = Inr (Fin \<bar>a\<bar>)"
| "cell_abs (CNum PInf) = Inr PInf"
| "cell_abs (CNum NInf) = Inr PInf"
| "cell_abs (CNum NaN) = Inr NaN"
| "cell_abs _ = Inl TypeError"

text \<open>The median of a list that is not empty: the middle of the sorted list, or the mean
  of the two middle values.\<close>

fun insort_f :: "pyfloat \<Rightarrow> pyfloat list \<Rightarrow> pyfloat list" where
  "insort_f x [] = [x]"
| "insort_f x (y # ys) = (if fle x y then x # y # ys else y # insort_f x ys)"

definition median :: "pyfloat list \<Rightarrow> pyfloat" where
  "median xs =
     (let s = foldr insort_f xs []; n = length s in
      if odd n then s ! (n div 2)
      else (case fdiv (fadd (s ! (n div 2 - 1)) (s ! (n div 2))) (Fin 2) of
              Inl e \<Rightarrow> NaN | Inr v \<Rightarrow> v))"

text \<open>\<open>float(s.abs().median())\<close> for \<open>s = df[col].dropna()\<close>, not-a-number when \<open>s\<close> is empty.\<close>

definition magnitude_of :: "column \<Rightarrow> pyerr + pyfloat" where
  "magnitude_of c =
     (let s = filter (\<lambda>v. \<not> cell_isna v) (cells c) in
      if s \<noteq> [] then (case map_err cell_abs s of Inl e \<Rightarrow> Inl e | Inr vs \<Rightarrow> Inr (median vs))
      else Inr NaN)"

text \<open>\<open>magnitude[col] = v\<close> on a dictionary in insertion order.\<close>

fun dict_set :: "string \<Rightarrow> pyfloat \<Rightarrow> (string \<times> pyfloat) list \<Rightarrow> (string \<times> pyfloat) list" where
  "dict_set k v [] = [(k, v)]"
| "dict_set k v ((k', v') # kvs) = (if k = k' then (k, v) # kvs else (k', v') # dict_set k v kvs)"

definition magnitude_step ::
  "frame \<Rightarrow> string \<Rightarrow> (string \<times> pyfloat) list \<Rightarrow> pyerr + (string \<times> pyfloat) list"
where
  "magnitude_step df col magnitude =
     (case columns df col of
        None \<Rightarrow> Inr magnitude
      | Some c \<Rightarrow>
          (case magnitude_of c of Inl e \<Rightarrow> Inl e | Inr v \<Rightarrow> Inr (dict_set col v magnitude)))"

definition validate_dataframe ::
  "parser \<Rightarrow> frame \<Rightarrow> string list \<Rightarrow> frame \<times> (pyerr + bool \<times> report)"
where
  "validate_dataframe pn df required_metal_columns =
     (let report0 = \<lparr>missing_columns = [], non_numeric = [], missing_coords = 0,
                     rows = nrows df, median_magnitude = []\<rparr>;
          (df1, report1) = fold (validate_column pn) required_metal_columns (df, report0);
          report2 =
            (case (columns df1 ''latitude'', columns df1 ''longitude'') of
               (Some la, Some lo) \<Rightarrow> report1\<lparr>missing_coords := count_na la + count_na lo\<rparr>
             | _ \<Rightarrow> report1)
      in (df1,
          case fold_err (magnitude_step df1) required_metal_columns [] of
            Inl e \<Rightarrow> Inl e
          | Inr magnitude \<Rightarrow>
              Inr (missing_columns report2 = [], report2\<lparr>median_magnitude := magnitude\<rparr>)))"

section \<open>The indices as the specification words them\<close>

text \<open>
  The definitions of this section follow the specification, not the code: a typed
  accessor that returns nothing on a missing or non-coercible cell, the list of the
  metals that contribute to a row, and the three indices as sums over that list. The
  theorems below compare them with the functions of the code.
\<close>

text \<open>A cell that is not a list or an array: the cells the specification speaks of.\<close>

definition scalar_cell :: "row \<Rightarrow> string \<Rightarrow> bool" where
  "scalar_cell row col = (row_get row col \<noteq> CArr)"

text \<open>The typed accessor of the design notes: the number in a cell, nothing on a missing or
  non-coercible one.\<close>

definition get_numeric :: "parser \<Rightarrow> row \<Rightarrow> string \<Rightarrow> pyfloat option" where
  "get_numeric pf row col =
     (case row_get row col of
        CNum x \<Rightarrow> if x = NaN then None else Some x
      | CStr s \<Rightarrow> pf s
      | _ \<Rightarrow> None)"

text \<open>\<open>c / s\<close> for a divisor that is not zero.\<close>

definition ratio :: "pyfloat \<Rightarrow> pyfloat \<Rightarrow> pyfloat" where
  "ratio c s = (case fdiv c s of Inl e \<Rightarrow> NaN | Inr r \<Rightarrow> r)"

text \<open>The pair \<open>(Ci, Si)\<close> of a metal that contributes to a row: its concentration is numeric,
  its standard is present and not zero.\<close>

definition contrib :: "parser \<Rightarrow> row \<Rightarrow> string \<times> pyfloat option \<Rightarrow> (pyfloat \<times> pyfloat) option" where
  "contrib pf row item =
     (case (get_numeric pf row (fst item), snd item) of
        (Some c, Some s) \<Rightarrow> if feq0 s then None else Some (c, s)
      | _ \<Rightarrow> None)"

text \<open>The contributing metals of a row, in the order of the limits.\<close>

definition contributing :: "parser \<Rightarrow> row \<Rightarrow> limits \<Rightarrow> (pyfloat \<times> pyfloat) list" where
  "contributing pf row limits = List.map_filter (contrib pf row) limits"

text \<open>\<open>Wi\<close>: \<open>1 / Si\<close> under the scheme "1/Si", 1 otherwise.\<close>

definition weight :: "string \<Rightarrow> pyfloat \<Rightarrow> pyfloat" where
  "weight weight_scheme s = (if weight_scheme = ''1/Si'' then ratio (Fin 1) s else Fin 1)"

text \<open>A sum of floats, from 0.0 and from left to right.\<close>

definition fsum :: "pyfloat list \<Rightarrow> pyfloat" where
  "fsum xs = foldl fadd (Fin 0) xs"

text \<open>HMPI of a row: the sum of \<open>Qi * Wi\<close> over the sum of \<open>Wi\<close>, undefined when the sum of
  the weights is not positive.\<close>

definition spec_hmpi :: "parser \<Rightarrow> limits \<Rightarrow> string \<Rightarrow> row \<Rightarrow> pyfloat" where
  "spec_hmpi pf limits weight_scheme row =
     (let cs = contributing pf row limits;
          Qi_sum = fsum (map (\<lambda>(c, s). fmul (fmul (ratio c s) (Fin 100)) (weight weight_scheme s)) cs);
          Wi_sum = fsum (map (\<lambda>(c, s). weight weight_scheme s) cs)
      in if flt (Fin 0) Wi_sum then ratio Qi_sum Wi_sum else NaN)"

text \<open>MCI of a row: the sum of \<open>Ci / Si\<close>, undefined when no metal contributes.\<close>

definition spec_mci :: "parser \<Rightarrow> limits \<Rightarrow> row \<Rightarrow> pyfloat" where
  "spec_mci pf limits row =
     (let cs = contributing pf row limits
      in if cs = [] then NaN else fsum (map (\<lambda>(c, s). ratio c s) cs))"

text \<open>PI of a metal in a row: \<open>Ci / Si\<close>, undefined when the metal does not contribute.\<close>

definition spec_pi :: "parser \<Rightarrow> string \<times> pyfloat option \<Rightarrow> row \<Rightarrow> pyfloat" where
  "spec_pi pf item row = (case contrib pf row item of None \<Rightarrow> NaN | Some (c, s) \<Rightarrow> ratio c s)"

text \<open>A table whose cells in the tracked columns are all scalars.\<close>

definition scalar_table :: "table \<Rightarrow> limits \<Rightarrow> bool" where
  "scalar_table df limits = list_all (\<lambda>row. list_all (scalar_cell row) (map fst limits)) df"

text \<open>The PI table: one column for each metal of the limits, one entry for each row.\<close>

definition spec_pi_table :: "parser \<Rightarrow> table \<Rightarrow> limits \<Rightarrow> (string \<times> pyfloat list) list" where
  "spec_pi_table pf df limits = map (\<lambda>item. (''PI_'' @ fst item, map (spec_pi pf item) df)) limits"

text \<open>A float that is positive: an infinity, or a finite value from the least positive
  double on.\<close>

definition fpos :: "pyfloat \<Rightarrow> bool" where
  "fpos x = (case x of Fin r \<Rightarrow> pow2 (- 1074) \<le> r | PInf \<Rightarrow> True | NInf \<Rightarrow> False | NaN \<Rightarrow> False)"

text \<open>
  The three outputs of the index engine on one table, for a weighting scheme; only
  \<open>calculate_hmpi\<close> takes the scheme.
\<close>

definition engine_outputs ::
  "parser \<Rightarrow> table \<Rightarrow> limits \<Rightarrow> string \<Rightarrow>
   (pyerr + pyfloat list) \<times> (pyerr + pyfloat list) \<times> (pyerr + (string \<times> pyfloat list) list)"
where
  "engine_outputs pf df limits weight_scheme =
     (calculate_hmpi pf df limits weight_scheme, calculate_mci pf df limits,
      calculate_pi_table pf df limits)"

text \<open>What the first loop leaves in a column it visits.\<close>

definition coerce_column :: "parser \<Rightarrow> column \<Rightarrow> column" where
  "coerce_column pn c =
     (if numeric c then c
      else \<lparr>numeric = True, cells = map (\<lambda>v. CNum (coerce_cell pn v)) (cells c)\<rparr>)"

text \<open>A cell that holds a number, as every cell of a column of numeric dtype does.\<close>

fun is_num :: "cell \<Rightarrow> bool" where
  "is_num (CNum x) = True"
| "is_num _ = False"

section \<open>Example inputs\<close>

text \<open>The concrete scenario of the specification; a decimal literal denotes the double nearest to it.\<close>

definition ex_limits :: limits where
  "ex_limits = [(''Pb'', Some (rnd (1 / 100))), (''Cd'', Some (rnd (3 / 1000)))]"

definition ex_row :: row where
  "ex_row = [''Pb'' \<mapsto> CNum (rnd (2 / 100)), ''Cd'' \<mapsto> CNum (rnd (6 / 1000))]"

text \<open>A \<open>float\<close> that rejects every string, for tables that hold none.\<close>

definition no_float :: parser where
  "no_float s = None"

text \<open>A negative standard, and a row with a concentration of lead only.\<close>

definition neg_limits :: limits where
  "neg_limits = [(''Pb'', Some (rnd (- (1 / 100))))]"

definition pb_row :: row where
  "pb_row = [''Pb'' \<mapsto> CNum (rnd (2 / 100))]"

text \<open>The scenario of the specification with the standard of cadmium negated.\<close>

definition mixed_limits :: limits where
  "mixed_limits = [(''Pb'', Some (rnd (1 / 100))), (''Cd'', Some (rnd (- (3 / 1000))))]"

text \<open>The second scenario of the specification: lead is tracked, the row has no value.\<close>

definition pb_limits :: limits where
  "pb_limits = [(''Pb'', Some (rnd (1 / 100)))]"

definition empty_row :: row where
  "empty_row = Map.empty"

text \<open>A row with the ratios 2 for lead and 1 for cadmium under the limits of the scenario.\<close>

definition ex_row2 :: row where
  "ex_row2 = [''Pb'' \<mapsto> CNum (rnd (2 / 100)), ''Cd'' \<mapsto> CNum (rnd (3 / 1000))]"

text \<open>A row whose lead cell holds a list of two numbers.\<close>

definition array_row :: row where
  "array_row = [''Pb'' \<mapsto> CArr]"

text \<open>A frame with a column of strings for lead, one of them not a number.\<close>

definition text_frame :: frame where
  "text_frame = \<lparr>nrows = 2,
     columns = [''Pb'' \<mapsto> \<lparr>numeric = False, cells = [CStr ''0.02'', CStr ''n/d'']\<rparr>]\<rparr>"

definition ex_parser :: parser where
  "ex_parser s = (if s = ''0.02'' then Some (rnd (2 / 100)) else None)"

section \<open>The code computes the indices of the specification\<close>

lemma safe_get_scalar: "scalar_cell row col \<Longrightarrow> safe_get pf row col = Inr (get_numeric pf row col)"
  by (cases "row_get row col")
     (auto simp: scalar_cell_def safe_get_def get_numeric_def split: option.splits)

lemma safe_get_array: "\<not> scalar_cell row col \<Longrightarrow> safe_get pf row col = Inl ValueError"
  by (simp add: scalar_cell_def safe_get_def)

lemma fdiv_ratio: "\<not> feq0 s \<Longrightarrow> fdiv c s = Inr (ratio c s)"
  by (cases s; cases c) (auto simp: ratio_def)

lemma flt_pos_nonzero: "flt (Fin 0) w \<Longrightarrow> \<not> feq0 w"
  by (cases w) auto

lemma dict_get_distinct:
  "distinct (map fst limits) \<Longrightarrow> item \<in> set limits \<Longrightarrow> dict_get limits (fst item) = Inr (snd item)"
  by (cases item) (simp add: dict_get_def)

lemma hmpi_metal_scalar:
  assumes "scalar_cell row (fst item)" "dict_get limits (fst item) = Inr (snd item)"
  shows "hmpi_metal pf row limits ws (fst item) acc =
     Inr (case contrib pf row item of
            None \<Rightarrow> acc
          | Some (c, s) \<Rightarrow> (fadd (fst acc) (fmul (fmul (ratio c s) (Fin 100)) (weight ws s)),
                            fadd (snd acc) (weight ws s)))"
  using assms
  by (auto simp: hmpi_metal_def safe_get_scalar contrib_def fdiv_ratio weight_def Let_def
      split: option.splits)

lemma hmpi_fold_scalar:
  assumes "\<forall>item\<in>set items. scalar_cell row (fst item) \<and> dict_get limits (fst item) = Inr (snd item)"
  shows "fold_err (hmpi_metal pf row limits ws) (map fst items) (q, w) =
     Inr (foldl fadd q (map (\<lambda>(c, s). fmul (fmul (ratio c s) (Fin 100)) (weight ws s)) (contributing pf row items)),
          foldl fadd w (map (\<lambda>(c, s). weight ws s) (contributing pf row items)))"
  using assms
proof (induction items arbitrary: q w)
  case Nil
  then show ?case by (simp add: contributing_def)
next
  case (Cons item items)
  then have a: "scalar_cell row (fst item)" "dict_get limits (fst item) = Inr (snd item)" by simp_all
  show ?case
    using Cons
    by (cases "contrib pf row item")
       (auto simp: hmpi_metal_scalar [OF a] contributing_def)
qed

lemma hmpi_row_scalar:
  assumes "distinct (map fst limits)" "\<forall>m\<in>set (map fst limits). scalar_cell row m"
  shows "hmpi_row pf limits ws row = Inr (spec_hmpi pf limits ws row)"
proof -
  have "\<forall>item\<in>set limits. scalar_cell row (fst item) \<and> dict_get limits (fst item) = Inr (snd item)"
    using assms by (auto simp: dict_get_distinct)
  from hmpi_fold_scalar [OF this]
  show ?thesis
    by (simp add: hmpi_row_def spec_hmpi_def fsum_def Let_def fdiv_ratio flt_pos_nonzero)
qed

lemma mci_metal_scalar:
  assumes "scalar_cell row (fst item)" "dict_get limits (fst item) = Inr (snd item)"
  shows "mci_metal pf row limits (fst item) acc =
     Inr (case contrib pf row item of
            None \<Rightarrow> acc
          | Some (c, s) \<Rightarrow> (fadd (fst acc) (ratio c s), True))"
  using assms
  by (auto simp: mci_metal_def safe_get_scalar contrib_def fdiv_ratio split: option.splits)

lemma mci_fold_scalar:
  assumes "\<forall>item\<in>set items. scalar_cell row (fst item) \<and> dict_get limits (fst item) = Inr (snd item)"
  shows "fold_err (mci_metal pf row limits) (map fst items) (s0, b) =
     Inr (foldl fadd s0 (map (\<lambda>(c, s). ratio c s) (contributing pf row items)),
          b \<or> contributing pf row items \<noteq> [])"
  using assms
proof (induction items arbitrary: s0 b)
  case Nil
  then show ?case by (simp add: contributing_def)
next
  case (Cons item items)
  then have a: "scalar_cell row (fst item)" "dict_get limits (fst item) = Inr (snd item)" by simp_all
  show ?case
    using Cons
    by (cases "contrib pf row item")
       (auto simp: mci_metal_scalar [OF a] contributing_def)
qed

lemma row_mci_scalar:
  assumes "distinct (map fst limits)" "\<forall>m\<in>set (map fst limits). scalar_cell row m"
  shows "row_mci pf limits row = Inr (spec_mci pf limits row)"
proof -
  have "\<forall>item\<in>set limits. scalar_cell row (fst item) \<and> dict_get limits (fst item) = Inr (snd item)"
    using assms by (auto simp: dict_get_distinct)
  from mci_fold_scalar [OF this]
  show ?thesis
    by (simp add: row_mci_def spec_mci_def fsum_def Let_def)
qed

lemma pi_cell_scalar:
  "scalar_cell row (fst item) \<Longrightarrow> pi_cell pf (fst item) (snd item) row = Inr (spec_pi pf item row)"
  by (auto simp: pi_cell_def spec_pi_def safe_get_scalar contrib_def fdiv_ratio split: option.splits)

lemma map_err_Inr: "\<forall>x\<in>set xs. f x = Inr (g x) \<Longrightarrow> map_err f xs = Inr (map g xs)"
  by (induction xs) simp_all

lemma map_err_all2: "map_err f xs = Inr ys \<longleftrightarrow> list_all2 (\<lambda>x y. f x = Inr y) xs ys"
proof (induction xs arbitrary: ys)
  case Nil
  then show ?case by auto
next
  case (Cons x xs)
  show ?case
    by (cases "f x"; cases "map_err f xs")
       (auto simp: list_all2_Cons1 Cons.IH [symmetric])
qed

lemma map_err_Inl: "x \<in> set xs \<Longrightarrow> f x = Inl e \<Longrightarrow> \<exists>e'. map_err f xs = Inl e'"
  by (induction xs) (auto split: sum.splits)

lemma scalar_tableD:
  "scalar_table df limits \<Longrightarrow> row \<in> set df \<Longrightarrow> item \<in> set limits \<Longrightarrow> scalar_cell row (fst item)"
  by (auto simp: scalar_table_def list_all_iff)

lemma calculate_hmpi_scalar:
  assumes "distinct (map fst limits)" "scalar_table df limits"
  shows "calculate_hmpi pf df limits ws = Inr (map (spec_hmpi pf limits ws) df)"
  unfolding calculate_hmpi_def
  by (rule map_err_Inr) (use assms in \<open>auto intro!: hmpi_row_scalar dest: scalar_tableD\<close>)

lemma calculate_mci_scalar:
  assumes "distinct (map fst limits)" "scalar_table df limits"
  shows "calculate_mci pf df limits = Inr (map (spec_mci pf limits) df)"
  unfolding calculate_mci_def
  by (rule map_err_Inr) (use assms in \<open>auto intro!: row_mci_scalar dest: scalar_tableD\<close>)

lemma pi_column_scalar:
  assumes "scalar_table df limits" "item \<in> set limits"
  shows "pi_column pf df item = Inr (''PI_'' @ fst item, map (spec_pi pf item) df)"
proof -
  have "map_err (pi_cell pf (fst item) (snd item)) df = Inr (map (spec_pi pf item) df)"
    by (rule map_err_Inr) (use assms in \<open>auto intro!: pi_cell_scalar dest: scalar_tableD\<close>)
  then show ?thesis by (simp add: pi_column_def)
qed

lemma calculate_pi_table_scalar:
  assumes "scalar_table df limits"
  shows "calculate_pi_table pf df limits = Inr (spec_pi_table pf df limits)"
  unfolding calculate_pi_table_def spec_pi_table_def
  by (rule map_err_Inr) (use assms in \<open>auto simp: pi_column_scalar\<close>)

lemma safe_get_Inr: "safe_get pf row col = Inr v \<Longrightarrow> scalar_cell row col \<and> get_numeric pf row col = v"
  by (cases "scalar_cell row col") (simp_all add: safe_get_scalar safe_get_array)

section \<open>Rounding\<close>

text \<open>
  The exponent of \<open>a\<close> is the \<open>e\<close> with \<open>2^e \<le> a < 2^(e + 1)\<close>. The rounded value lies
  within half a spacing of the exact one, a real from \<open>2^1024\<close> on rounds to an infinity,
  a real from the least positive double on rounds to a positive float, and a sum of
  positive floats is positive.
\<close>

lemma bit_length_bounds: "0 < n \<Longrightarrow> 2 ^ (bit_length n - 1) \<le> n \<and> n < 2 ^ bit_length n"
proof (induction n rule: bit_length.induct)
  case (1 n)
  show ?case
  proof (cases "n div 2 = 0")
    case True
    with 1(2) have "n = 1" by (simp add: div_eq_0_iff) 
    then show ?thesis by (simp add: bit_length.simps)
  next
    case False
    then have p: "0 < n div 2" by simp
    from 1(1) [OF _ p] 1(2)
    have ih: "2 ^ (bit_length (n div 2) - 1) \<le> n div 2" "n div 2 < 2 ^ bit_length (n div 2)"
      by simp_all
    have b: "bit_length n = Suc (bit_length (n div 2))"
      using 1(2) by (subst bit_length.simps) simp
    have pos: "0 < bit_length (n div 2)"
      using p by (subst bit_length.simps) simp
    then have "(2::nat) ^ bit_length (n div 2) = 2 * 2 ^ (bit_length (n div 2) - 1)"
      by (cases "bit_length (n div 2)") simp_all
    with ih show ?thesis unfolding b by simp linarith
  qed
qed

lemma pow2_powr: "pow2 e = 2 powr (real_of_int e)"
proof (cases "0 \<le> e")
  case True
  then show ?thesis by (simp add: pow2_def powr_realpow [symmetric])
next
  case False
  then have r: "real (nat (- e)) = - real_of_int e" by simp
  have "(2::real) ^ nat (- e) = 2 powr real (nat (- e))"
    by (simp add: powr_realpow)
  then have "(2::real) ^ nat (- e) = 2 powr (- real_of_int e)"
    by (simp only: r)
  with False show ?thesis by (simp add: pow2_def powr_minus_divide)
qed

lemma pow2_mono: "e \<le> e' \<Longrightarrow> pow2 e \<le> pow2 e'"
  by (simp add: pow2_powr powr_mono)

lemma pow2_pos: "0 < pow2 e"
  by (simp add: pow2_powr)

lemma exponent_le: assumes "0 < a" shows "pow2 (exponent a) \<le> a"
proof (cases "1 \<le> a")
  case True
  let ?n = "nat \<lfloor>a\<rfloor>"
  have n: "0 < ?n" using True by simp
  from bit_length_bounds [OF n] have "2 ^ (bit_length ?n - 1) \<le> ?n" by simp
  then have "(2::real) ^ (bit_length ?n - 1) \<le> real ?n"
    by (metis of_nat_le_iff of_nat_numeral of_nat_power)
  also have "\<dots> \<le> a" using True by simp
  finally have "(2::real) ^ (bit_length ?n - 1) \<le> a" .
  moreover have "0 < bit_length ?n" using n by (subst bit_length.simps) simp
  then have "nat (int (bit_length ?n) - 1) = bit_length ?n - 1" by simp
  ultimately show ?thesis using True \<open>0 < bit_length ?n\<close> by (simp add: exponent_def pow2_def)
next
  case False
  let ?m = "nat (\<lceil>1 / a\<rceil> - 1)"
  have "1 < 1 / a" using False assms by simp
  then have c: "2 \<le> \<lceil>1 / a\<rceil>" by (simp add: less_ceiling_iff[symmetric]) 
  then have m: "0 < ?m" by simp
  from bit_length_bounds [OF m] have "?m < 2 ^ bit_length ?m" by simp
  then have "\<lceil>1 / a\<rceil> \<le> 2 ^ bit_length ?m"
    using c by (simp add: nat_less_iff) 
  then have "1 / a \<le> 2 ^ bit_length ?m"
    by (simp add: ceiling_le_iff)
  then have "1 / 2 ^ bit_length ?m \<le> a"
    using assms by (simp add: field_simps)
  moreover have "0 < bit_length ?m" using m by (subst bit_length.simps) simp
  ultimately show ?thesis using False by (simp add: exponent_def pow2_def)
qed

lemma round_even_ge: "1 \<le> t \<Longrightarrow> 1 \<le> round_even t"
proof -
  assume "1 \<le> t"
  then have "1 \<le> \<lfloor>t\<rfloor>" by simp
  then show ?thesis by (simp add: round_even_def Let_def)
qed

lemma rnd_pos_fpos: assumes "pow2 (- 1074) \<le> a" shows "fpos (rnd_pos a)"
proof -
  have a: "0 < a" using assms pow2_pos [of "- 1074"] by linarith
  define q where "q = max (exponent a - 52) (- 1074)"
  have "pow2 (exponent a - 52) \<le> pow2 (exponent a)" by (rule pow2_mono) simp
  with exponent_le [OF a] have "pow2 (exponent a - 52) \<le> a" by linarith
  with assms have qa: "pow2 q \<le> a" by (simp add: q_def max_def)
  then have "1 \<le> a / pow2 q" using pow2_pos [of q] by (simp add: field_simps)
  then have "1 \<le> round_even (a / pow2 q)" by (rule round_even_ge)
  then have "1 \<le> real_of_int (round_even (a / pow2 q))" by simp
  then have "1 * pow2 q \<le> real_of_int (round_even (a / pow2 q)) * pow2 q"
    using pow2_pos [of q] by (intro mult_right_mono) simp_all
  moreover have "pow2 (- 1074) \<le> pow2 q" by (rule pow2_mono) (simp add: q_def)
  ultimately have "pow2 (- 1074) \<le> real_of_int (round_even (a / pow2 q)) * pow2 q" by simp
  then show ?thesis by (simp add: rnd_pos_def Let_def q_def [symmetric] fpos_def)
qed

lemma rnd_fpos: "pow2 (- 1074) \<le> a \<Longrightarrow> fpos (rnd a)"
  using pow2_pos [of "- 1074"] by (auto simp: rnd_def rnd_pos_fpos)

lemma fadd_fpos: "fpos x \<or> x = Fin 0 \<Longrightarrow> fpos y \<Longrightarrow> fpos (fadd x y)"
  using pow2_pos [of "- 1074"]
  by (cases x; cases y) (auto simp: fpos_def [of "Fin _"] fpos_def [of PInf] fpos_def [of NInf] fpos_def [of NaN] intro!: rnd_fpos)

lemma round_even_near: "\<bar>real_of_int (round_even t) - t\<bar> \<le> 1 / 2"
  by (simp add: round_even_def Let_def)

lemma exponent_less: assumes "0 < a" shows "a < pow2 (exponent a + 1)"
proof (cases "1 \<le> a")
  case True
  let ?n = "nat \<lfloor>a\<rfloor>"
  have n: "0 < ?n" using True by simp
  from bit_length_bounds [OF n] have "?n < 2 ^ bit_length ?n" by simp
  then have "Suc ?n \<le> 2 ^ bit_length ?n" by (rule Suc_leI)
  then have "int (Suc ?n) \<le> int (2 ^ bit_length ?n)" by (simp only: of_nat_le_iff)
  then have "int ?n + 1 \<le> 2 ^ bit_length ?n" by simp
  then have "\<lfloor>a\<rfloor> + 1 \<le> 2 ^ bit_length ?n" using True by simp
  then have "real_of_int (\<lfloor>a\<rfloor> + 1) \<le> 2 ^ bit_length ?n"
    by (metis of_int_le_iff of_int_numeral of_int_power)
  moreover have "a < real_of_int (\<lfloor>a\<rfloor> + 1)" by linarith
  ultimately have "a < 2 ^ bit_length ?n" by linarith
  then show ?thesis using True by (simp add: exponent_def pow2_def)
next
  case False
  let ?m = "nat (\<lceil>1 / a\<rceil> - 1)"
  have "1 < 1 / a" using False assms by simp
  then have c: "2 \<le> \<lceil>1 / a\<rceil>" by (simp add: less_ceiling_iff [symmetric])
  then have m: "0 < ?m" by simp
  then have b: "0 < bit_length ?m" by (subst bit_length.simps) simp
  from bit_length_bounds [OF m] have "2 ^ (bit_length ?m - 1) \<le> ?m" by simp
  then have "2 ^ (bit_length ?m - 1) \<le> int ?m"
    by (metis of_nat_le_iff of_nat_numeral of_nat_power)
  moreover have "int ?m = \<lceil>1 / a\<rceil> - 1" using c assms by simp
  ultimately have "2 ^ (bit_length ?m - 1) < \<lceil>1 / a\<rceil>" by linarith
  then have "real_of_int (2 ^ (bit_length ?m - 1)) < 1 / a"
    by (simp only: less_ceiling_iff)
  then have "2 ^ (bit_length ?m - 1) < 1 / a" by simp
  then have "a < 1 / 2 ^ (bit_length ?m - 1)"
    using assms by (simp add: field_simps)
  moreover have "pow2 (exponent a + 1) = 1 / 2 ^ (bit_length ?m - 1)"
  proof (cases "bit_length ?m = 1")
    case True
    then show ?thesis using False by (simp add: exponent_def pow2_def)
  next
    case F: False
    with b have "1 < bit_length ?m" by simp
    then have "nat (int (bit_length ?m) - 1) = bit_length ?m - 1" "\<not> 0 \<le> - int (bit_length ?m) + 1"
      by simp_all
    then show ?thesis using False by (simp add: exponent_def pow2_def)
  qed
  ultimately show ?thesis by simp
qed

lemma rnd_pos_near:
  assumes "rnd_pos a = Fin r"
  shows "\<bar>r - a\<bar> \<le> pow2 (max (exponent a - 52) (- 1074)) / 2"
proof -
  define q where "q = max (exponent a - 52) (- 1074)"
  have r: "r = real_of_int (round_even (a / pow2 q)) * pow2 q"
    using assms by (simp add: rnd_pos_def Let_def q_def [symmetric] split: if_splits)
  have p: "0 < pow2 q" by (rule pow2_pos)
  have "\<bar>real_of_int (round_even (a / pow2 q)) - a / pow2 q\<bar> * pow2 q \<le> 1 / 2 * pow2 q"
    using round_even_near [of "a / pow2 q"] p by (intro mult_right_mono) simp_all
  moreover have "(real_of_int (round_even (a / pow2 q)) - a / pow2 q) * pow2 q = r - a"
    using p by (simp add: r left_diff_distrib)
  then have "\<bar>real_of_int (round_even (a / pow2 q)) - a / pow2 q\<bar> * pow2 q = \<bar>r - a\<bar>"
    using p abs_mult_pos [of "pow2 q" "real_of_int (round_even (a / pow2 q)) - a / pow2 q"]
    by simp
  ultimately show ?thesis by (simp add: q_def)
qed

lemma rnd_overflow: assumes "2 ^ 1024 \<le> a" shows "rnd a = PInf"
proof -
  have a: "0 < a" using assms by (smt (verit) zero_less_power)
  define q where "q = max (exponent a - 52) (- 1074)"
  have p: "0 < pow2 q" by (rule pow2_pos)
  have "pow2 (exponent a - 52) \<le> pow2 (exponent a)" by (rule pow2_mono) simp
  with exponent_le [OF a] have "pow2 (exponent a - 52) \<le> a" by linarith
  moreover have "pow2 (- 1074) \<le> pow2 1024" by (rule pow2_mono) simp
  moreover have e: "pow2 1024 = 2 ^ 1024" by (simp add: pow2_def)
  ultimately have qa: "pow2 q \<le> a" using assms by (simp add: q_def max_def)
  have "2 ^ 1024 \<le> real_of_int (round_even (a / pow2 q)) * pow2 q"
  proof (cases "q \<le> 1024")
    case True
    then have "pow2 1024 = 2 ^ nat (1024 - q) * pow2 q"
      by (simp add: pow2_powr powr_realpow [symmetric] powr_add [symmetric])
    then have "real_of_int (2 ^ nat (1024 - q)) \<le> a / pow2 q"
      using assms p e by (simp add: field_simps)
    then have "2 ^ nat (1024 - q) \<le> \<lfloor>a / pow2 q\<rfloor>"
      by (simp only: le_floor_iff)
    moreover have "\<lfloor>a / pow2 q\<rfloor> \<le> round_even (a / pow2 q)"
      by (simp add: round_even_def Let_def)
    ultimately have "2 ^ nat (1024 - q) \<le> round_even (a / pow2 q)" by linarith
    then have "real_of_int (2 ^ nat (1024 - q)) \<le> real_of_int (round_even (a / pow2 q))"
      by (simp only: of_int_le_iff)
    then have "2 ^ nat (1024 - q) * pow2 q \<le> real_of_int (round_even (a / pow2 q)) * pow2 q"
      using p by (intro mult_right_mono) simp_all
    then have "pow2 1024 \<le> real_of_int (round_even (a / pow2 q)) * pow2 q"
      by (simp only: \<open>pow2 1024 = 2 ^ nat (1024 - q) * pow2 q\<close>)
    then show ?thesis by (simp only: e)
  next
    case False
    then have A: "pow2 1024 \<le> pow2 q" by (intro pow2_mono) simp
    have "1 \<le> a / pow2 q" using qa p by (simp add: field_simps)
    then have "1 \<le> round_even (a / pow2 q)" by (rule round_even_ge)
    then have "1 \<le> real_of_int (round_even (a / pow2 q))" by simp
    then have "1 * pow2 q \<le> real_of_int (round_even (a / pow2 q)) * pow2 q"
      using p by (intro mult_right_mono) simp_all
    then have B: "pow2 q \<le> real_of_int (round_even (a / pow2 q)) * pow2 q" by simp
    from order_trans [OF A B] show ?thesis by (simp only: e)
  qed
  then show ?thesis using a by (simp add: rnd_def rnd_pos_def Let_def q_def [symmetric])
qed

lemma fpos_flt: "fpos x \<Longrightarrow> flt (Fin 0) x"
  using pow2_pos [of "- 1074"] by (cases x) (auto simp: fpos_def)

lemma fpos_one: "fpos (Fin 1)"
  using pow2_mono [of "- 1074" 0] by (simp add: fpos_def) (simp add: pow2_def)

lemma foldl_fadd_fpos: "fpos a \<Longrightarrow> \<forall>x\<in>set xs. fpos x \<Longrightarrow> fpos (foldl fadd a xs)"
  by (induction xs arbitrary: a) (simp_all add: fadd_fpos)

lemma fsum_fpos: "xs \<noteq> [] \<Longrightarrow> \<forall>x\<in>set xs. fpos x \<Longrightarrow> fpos (fsum xs)"
  by (cases xs) (simp_all add: fsum_def foldl_fadd_fpos fadd_fpos)

lemma weight_fpos:
  assumes "0 < s" "s < 2 ^ 1024"
  shows "fpos (weight ws (Fin s))"
proof (cases "ws = ''1/Si''")
  case True
  have "1 / 2 ^ 1024 < 1 / s" using assms by (simp add: field_simps)
  moreover have "pow2 (- 1074) \<le> pow2 (- 1024)" by (rule pow2_mono) simp
  moreover have "pow2 (- 1024) = 1 / 2 ^ 1024" by (simp add: pow2_def)
  ultimately have "pow2 (- 1074) \<le> 1 / s" by linarith
  then have "fpos (rnd (1 / s))" by (rule rnd_fpos)
  with True assms(1) show ?thesis by (simp add: weight_def ratio_def)
next
  case False
  then show ?thesis by (simp add: weight_def fpos_one)
qed

text \<open>Evaluation of the arithmetic on numerals.\<close>

lemmas rnd_eval =
  rnd_def rnd_pos_def round_even_def exponent_def pow2_def bit_length.simps Let_def fneg_def

lemma double_literals:
  "rnd (1 / 100) = Fin (5764607523034235 / 2 ^ 59)"
  "rnd (2 / 100) = Fin (5764607523034235 / 2 ^ 58)"
  "rnd (3 / 1000) = Fin (3458764513820541 / 2 ^ 60)"
  "rnd (6 / 1000) = Fin (3458764513820541 / 2 ^ 59)"
  by (simp_all add: rnd_eval)

text \<open>0.1 and 1/3 are not doubles; \<open>2^53 + 1\<close> and \<open>2^53 + 3\<close> lie half way between two
  doubles.\<close>

lemma rounding_examples:
  "rnd (1 / 10) = Fin (3602879701896397 / 2 ^ 55)"
  "rnd (- (1 / 10)) = Fin (- (3602879701896397 / 2 ^ 55))"
  "rnd (2 ^ 53 + 1) = Fin (2 ^ 53)"
  "rnd (2 ^ 53 + 3) = Fin (2 ^ 53 + 4)"
  "rnd (1 / 3) = Fin (6004799503160661 / 2 ^ 54)"
  by (simp_all add: rnd_eval)

section \<open>The weighted formula\<close>

lemma contributing_all:
  assumes "\<forall>item\<in>set items. get_numeric pf row (fst item) = Some (C (fst item)) \<and>
             snd item = Some (Fin (S (fst item))) \<and> S (fst item) \<noteq> 0"
  shows "contributing pf row items = map (\<lambda>item. (C (fst item), Fin (S (fst item)))) items"
  using assms
  by (induction items) (auto simp: contributing_def contrib_def)

lemma spec_hmpi_positive:
  assumes "limits \<noteq> []"
    "\<forall>item\<in>set limits. get_numeric pf row (fst item) = Some (C (fst item)) \<and>
             snd item = Some (Fin (S (fst item))) \<and> 0 < S (fst item) \<and> S (fst item) < 2 ^ 1024"
  shows "fdiv (fsum (map (\<lambda>m. fmul (fmul (ratio (C m) (Fin (S m))) (Fin 100)) (weight ws (Fin (S m))))
                  (map fst limits)))
              (fsum (map (\<lambda>m. weight ws (Fin (S m))) (map fst limits)))
         = Inr (spec_hmpi pf limits ws row)"
proof -
  have c: "contributing pf row limits = map (\<lambda>item. (C (fst item), Fin (S (fst item)))) limits"
    by (rule contributing_all) (use assms in auto)
  have q: "map (\<lambda>(c, s). fmul (fmul (ratio c s) (Fin 100)) (weight ws s)) (contributing pf row limits)
      = map (\<lambda>m. fmul (fmul (ratio (C m) (Fin (S m))) (Fin 100)) (weight ws (Fin (S m)))) (map fst limits)"
    by (simp add: c comp_def)
  have w: "map (\<lambda>(c, s). weight ws s) (contributing pf row limits)
      = map (\<lambda>m. weight ws (Fin (S m))) (map fst limits)"
    by (simp add: c comp_def)
  have "fpos (fsum (map (\<lambda>m. weight ws (Fin (S m))) (map fst limits)))"
    by (rule fsum_fpos) (use assms in \<open>auto intro!: weight_fpos\<close>)
  then have pos: "flt (Fin 0) (fsum (map (\<lambda>m. weight ws (Fin (S m))) (map fst limits)))"
    by (rule fpos_flt)
  show ?thesis
    unfolding spec_hmpi_def Let_def q w
    using pos by (simp add: fdiv_ratio flt_pos_nonzero)
qed

text \<open>
  C1: for a row in which every tracked metal has a numeric concentration \<open>C m\<close> and a
  positive standard \<open>S m\<close> (a finite double), \<open>calculate_hmpi\<close> returns for that row the
  quotient of the sum of \<open>Qi * Wi\<close> by the sum of \<open>Wi\<close> over the metals, with
  \<open>Qi = (C m / S m) * 100\<close> and \<open>Wi = 1 / S m\<close> under the scheme "1/Si", \<open>Wi = 1\<close> under
  the scheme "equal". Sums, products and quotients are those of the floats, taken in the
  order of the limits; the division of the two sums does not raise. The limits are a
  dictionary with at least one metal, and no cell of a tracked column holds an array. At
  the limits Pb 0.01, Cd 0.003 and the row Pb 0.02, Cd 0.006 the value is 200.0 under both
  schemes.
\<close>

theorem calculate_hmpi_formula:
  assumes "distinct (map fst limits)" "limits \<noteq> []" "scalar_table df limits" "i < length df"
    "\<forall>m\<in>set (map fst limits). safe_get pf (df ! i) m = Inr (Some (C m)) \<and>
        map_of limits m = Some (Some (Fin (S m))) \<and> 0 < S m \<and> S m < 2 ^ 1024"
  shows "(\<exists>out. calculate_hmpi pf df limits ''1/Si'' = Inr out \<and> length out = length df \<and>
            fdiv (fsum (map (\<lambda>m. fmul (fmul (ratio (C m) (Fin (S m))) (Fin 100))
                                      (ratio (Fin 1) (Fin (S m)))) (map fst limits)))
                 (fsum (map (\<lambda>m. ratio (Fin 1) (Fin (S m))) (map fst limits)))
              = Inr (out ! i)) \<and>
         (\<exists>out. calculate_hmpi pf df limits ''equal'' = Inr out \<and> length out = length df \<and>
            fdiv (fsum (map (\<lambda>m. fmul (fmul (ratio (C m) (Fin (S m))) (Fin 100)) (Fin 1))
                         (map fst limits)))
                 (fsum (map (\<lambda>m. Fin 1) (map fst limits)))
              = Inr (out ! i))"
proof -
  have h: "\<forall>item\<in>set limits. get_numeric pf (df ! i) (fst item) = Some (C (fst item)) \<and>
             snd item = Some (Fin (S (fst item))) \<and> 0 < S (fst item) \<and> S (fst item) < 2 ^ 1024"
  proof
    fix item assume a: "item \<in> set limits"
    have "map_of limits (fst item) = Some (snd item)"
      using dict_get_distinct [OF assms(1) a] by (simp add: dict_get_def split: option.splits)
    with a assms(5) show "get_numeric pf (df ! i) (fst item) = Some (C (fst item)) \<and>
             snd item = Some (Fin (S (fst item))) \<and> 0 < S (fst item) \<and> S (fst item) < 2 ^ 1024"
      by (auto dest: safe_get_Inr)
  qed
  note f = spec_hmpi_positive [OF assms(2) h]
  have a: "fdiv (fsum (map (\<lambda>m. fmul (fmul (ratio (C m) (Fin (S m))) (Fin 100))
                                      (ratio (Fin 1) (Fin (S m)))) (map fst limits)))
                 (fsum (map (\<lambda>m. ratio (Fin 1) (Fin (S m))) (map fst limits)))
      = Inr (spec_hmpi pf limits ''1/Si'' (df ! i))"
    using f [of "''1/Si''"] by (simp add: weight_def)
  have b: "fdiv (fsum (map (\<lambda>m. fmul (fmul (ratio (C m) (Fin (S m))) (Fin 100)) (Fin 1))
                         (map fst limits)))
                 (fsum (map (\<lambda>m. Fin 1) (map fst limits)))
      = Inr (spec_hmpi pf limits ''equal'' (df ! i))"
    using f [of "''equal''"] by (simp add: weight_def)
  show ?thesis
    using assms(4) a b
    by (simp add: calculate_hmpi_scalar [OF assms(1,3)])
qed

theorem calculate_hmpi_formula_witness:
  "calculate_hmpi no_float [ex_row] ex_limits ''1/Si'' = Inr [Fin 200] \<and>
   calculate_hmpi no_float [ex_row] ex_limits ''equal'' = Inr [Fin 200] \<and>
   ex_limits = [(''Pb'', Some (Fin (5764607523034235 / 2 ^ 59))),
                (''Cd'', Some (Fin (3458764513820541 / 2 ^ 60)))]"
proof -
  have e: "calculate_hmpi no_float [ex_row] ex_limits ''1/Si'' = Inr [Fin 200] \<and>
     calculate_hmpi no_float [ex_row] ex_limits ''equal'' = Inr [Fin 200] \<and>
     ex_limits = [(''Pb'', Some (Fin (5764607523034235 / 2 ^ 59))),
                  (''Cd'', Some (Fin (3458764513820541 / 2 ^ 60)))]"
    by (simp add: ex_limits_def ex_row_def
        calculate_hmpi_def hmpi_row_def hmpi_metal_def safe_get_def dict_get_def row_get_def
        rnd_eval)
  have h: "distinct (map fst ex_limits)" "ex_limits \<noteq> []" "scalar_table [ex_row] ex_limits"
    "0 < length [ex_row]"
    "\<forall>m\<in>set (map fst ex_limits).
        safe_get no_float ([ex_row] ! 0) m =
          Inr (Some ((\<lambda>m. if m = ''Pb'' then rnd (2 / 100) else rnd (6 / 1000)) m)) \<and>
        map_of ex_limits m =
          Some (Some (Fin ((\<lambda>m. if m = ''Pb'' then 5764607523034235 / 2 ^ 59
                                 else 3458764513820541 / 2 ^ 60) m))) \<and>
        0 < (\<lambda>m. if m = ''Pb'' then 5764607523034235 / 2 ^ 59
                  else 3458764513820541 / 2 ^ 60 :: real) m \<and>
        (\<lambda>m. if m = ''Pb'' then 5764607523034235 / 2 ^ 59
              else 3458764513820541 / 2 ^ 60 :: real) m < 2 ^ 1024"
    by (simp_all add: ex_limits_def ex_row_def scalar_table_def scalar_cell_def row_get_def
        safe_get_def rnd_eval)
  from calculate_hmpi_formula [OF h] e show ?thesis by simp
qed

section \<open>Properties of the classifier\<close>

text \<open>
  C3: the two classifiers are defined on every value, the infinities and not-a-number
  included, and sort by half-open intervals that contain their lower bound:
  \<open>categorize_hmpi\<close> gives Unknown on not-a-number, Safe below 50, Low Pollution on
  [50, 100), High Pollution on [100, 200) and Very High Pollution from 200 on;
  \<open>categorize_mci\<close> gives Unknown, Safe below 1, Alert on [1, 2), Moderately Affected on
  [2, 6) and Seriously Affected from 6 on. The boundary values 50, 100, 200 and 1, 2, 6
  fall into the upper category.
\<close>

theorem categorize_half_open:
  "categorize_hmpi NaN = ''Unknown'' \<and> categorize_hmpi NInf = ''Safe'' \<and>
   categorize_hmpi PInf = ''Very High Pollution'' \<and>
   (x < 50 \<longrightarrow> categorize_hmpi (Fin x) = ''Safe'') \<and>
   (50 \<le> x \<and> x < 100 \<longrightarrow> categorize_hmpi (Fin x) = ''Low Pollution'') \<and>
   (100 \<le> x \<and> x < 200 \<longrightarrow> categorize_hmpi (Fin x) = ''High Pollution'') \<and>
   (200 \<le> x \<longrightarrow> categorize_hmpi (Fin x) = ''Very High Pollution'') \<and>
   categorize_hmpi (Fin 50) = ''Low Pollution'' \<and>
   categorize_hmpi (Fin 100) = ''High Pollution'' \<and>
   categorize_hmpi (Fin 200) = ''Very High Pollution'' \<and>
   categorize_mci NaN = ''Unknown'' \<and> categorize_mci NInf = ''Safe'' \<and>
   categorize_mci PInf = ''Seriously Affected'' \<and>
   (y < 1 \<longrightarrow> categorize_mci (Fin y) = ''Safe'') \<and>
   (1 \<le> y \<and> y < 2 \<longrightarrow> categorize_mci (Fin y) = ''Alert'') \<and>
   (2 \<le> y \<and> y < 6 \<longrightarrow> categorize_mci (Fin y) = ''Moderately Affected'') \<and>
   (6 \<le> y \<longrightarrow> categorize_mci (Fin y) = ''Seriously Affected'') \<and>
   categorize_mci (Fin 1) = ''Alert'' \<and>
   categorize_mci (Fin 2) = ''Moderately Affected'' \<and>
   categorize_mci (Fin 6) = ''Seriously Affected''"
  by (simp add: categorize_hmpi_def categorize_mci_def)

theorem categorize_half_open_witness:
  "categorize_hmpi (Fin (999 / 10)) = ''Low Pollution'' \<and>
   categorize_mci (Fin (3 / 2)) = ''Alert''"
  using categorize_half_open [of "999 / 10" "3 / 2"] by simp

section \<open>Standards that exclude a metal\<close>

lemma contrib_invalid: "Si = None \<or> Si = Some (Fin 0) \<Longrightarrow> contrib pf row (m, Si) = None"
  by (auto simp: contrib_def split: option.splits)

lemma contributing_append:
  "contributing pf row (l1 @ l2) = contributing pf row l1 @ contributing pf row l2"
  by (simp add: contributing_def map_filter_def)

lemma contributing_Cons:
  "contributing pf row (item # l) =
     (case contrib pf row item of None \<Rightarrow> contributing pf row l | Some cs \<Rightarrow> cs # contributing pf row l)"
  by (simp add: contributing_def map_filter_simps split: option.splits)

lemma contributing_drop_invalid:
  "Si = None \<or> Si = Some (Fin 0) \<Longrightarrow>
   contributing pf row (l1 @ (m, Si) # l2) = contributing pf row (l1 @ l2)"
  by (simp add: contributing_append contributing_Cons contrib_invalid)

lemma scalar_table_drop:
  "scalar_table df (l1 @ item # l2) \<Longrightarrow> scalar_table df (l1 @ l2)"
  by (auto simp: scalar_table_def list_all_iff)

lemma map_const: "(\<And>x. f x = c) \<Longrightarrow> map f xs = replicate (length xs) c"
  by (induction xs) simp_all

lemma spec_pi_invalid: "Si = None \<or> Si = Some (Fin 0) \<Longrightarrow> spec_pi pf (m, Si) row = NaN"
  by (simp add: spec_pi_def contrib_invalid)

lemma invalid_standard_excluded:
  assumes inv: "Si = None \<or> Si = Some (Fin 0)"
    and d: "distinct (map fst (l1 @ (m, Si) # l2))"
    and sc: "scalar_table df (l1 @ (m, Si) # l2)"
  shows "calculate_hmpi pf df (l1 @ (m, Si) # l2) ws = calculate_hmpi pf df (l1 @ l2) ws"
    and "calculate_mci pf df (l1 @ (m, Si) # l2) = calculate_mci pf df (l1 @ l2)"
    and "pi_column pf df (m, Si) = Inr (''PI_'' @ m, replicate (length df) NaN)"
    and "\<exists>out. calculate_hmpi pf df (l1 @ l2) ws = Inr out \<and> length out = length df"
    and "\<exists>out. calculate_mci pf df (l1 @ l2) = Inr out \<and> length out = length df"
proof -
  have d': "distinct (map fst (l1 @ l2))" using d by auto
  note sc' = scalar_table_drop [OF sc]
  show "calculate_hmpi pf df (l1 @ (m, Si) # l2) ws = calculate_hmpi pf df (l1 @ l2) ws"
    by (simp add: calculate_hmpi_scalar [OF d sc] calculate_hmpi_scalar [OF d' sc']
        spec_hmpi_def contributing_drop_invalid [OF inv])
  show "calculate_mci pf df (l1 @ (m, Si) # l2) = calculate_mci pf df (l1 @ l2)"
    by (simp add: calculate_mci_scalar [OF d sc] calculate_mci_scalar [OF d' sc']
        spec_mci_def contributing_drop_invalid [OF inv])
  have "pi_column pf df (m, Si) = Inr (''PI_'' @ fst (m, Si), map (spec_pi pf (m, Si)) df)"
    by (rule pi_column_scalar [OF sc]) simp
  then show "pi_column pf df (m, Si) = Inr (''PI_'' @ m, replicate (length df) NaN)"
    by (simp add: map_const [of "spec_pi pf (m, Si)" NaN] spec_pi_invalid [OF inv])
  show "\<exists>out. calculate_hmpi pf df (l1 @ l2) ws = Inr out \<and> length out = length df"
    by (simp add: calculate_hmpi_scalar [OF d' sc'])
  show "\<exists>out. calculate_mci pf df (l1 @ l2) = Inr out \<and> length out = length df"
    by (simp add: calculate_mci_scalar [OF d' sc'])
qed

text \<open>
  C2, as the code has it: a metal whose standard is zero contributes nothing to any row.
  \<open>calculate_hmpi\<close> and \<open>calculate_mci\<close> return what they return on the limits without
  that metal, and its column of \<open>calculate_pi_table\<close> is not-a-number in every row. The
  test of the code is \<open>Si == 0\<close>: a negative standard is not excluded.
\<close>

theorem zero_standard_excluded:
  assumes "distinct (map fst (l1 @ (m, Some (Fin 0)) # l2))"
    and "scalar_table df (l1 @ (m, Some (Fin 0)) # l2)"
  shows "calculate_hmpi pf df (l1 @ (m, Some (Fin 0)) # l2) ws = calculate_hmpi pf df (l1 @ l2) ws \<and>
    (\<exists>out. calculate_hmpi pf df (l1 @ l2) ws = Inr out \<and> length out = length df) \<and>
    calculate_mci pf df (l1 @ (m, Some (Fin 0)) # l2) = calculate_mci pf df (l1 @ l2) \<and>
    (\<exists>out. calculate_mci pf df (l1 @ l2) = Inr out \<and> length out = length df) \<and>
    (\<exists>cols. calculate_pi_table pf df (l1 @ (m, Some (Fin 0)) # l2) = Inr cols \<and>
       length cols = Suc (length l1 + length l2) \<and>
       cols ! length l1 = (''PI_'' @ m, replicate (length df) NaN))"
proof -
  have inv: "Some (Fin 0) = None \<or> Some (Fin 0) = Some (Fin 0)" by simp
  note e = invalid_standard_excluded [OF inv assms]
  have "(spec_pi_table pf df (l1 @ (m, Some (Fin 0)) # l2)) ! length l1
      = (''PI_'' @ m, map (spec_pi pf (m, Some (Fin 0))) df)"
    by (simp add: spec_pi_table_def nth_append)
  then have "(spec_pi_table pf df (l1 @ (m, Some (Fin 0)) # l2)) ! length l1
      = (''PI_'' @ m, replicate (length df) NaN)"
    by (simp add: map_const [of "spec_pi pf (m, Some (Fin 0))" NaN] spec_pi_invalid)
  then have "\<exists>cols. calculate_pi_table pf df (l1 @ (m, Some (Fin 0)) # l2) = Inr cols \<and>
       length cols = Suc (length l1 + length l2) \<and>
       cols ! length l1 = (''PI_'' @ m, replicate (length df) NaN)"
    by (simp add: calculate_pi_table_scalar [OF assms(2)]) (simp add: spec_pi_table_def)
  with e(1,2,4,5) show ?thesis by blast
qed

theorem zero_standard_excluded_witness:
  "calculate_hmpi no_float [ex_row] [(''Pb'', Some (rnd (1 / 100))), (''Cd'', Some (Fin 0))] ''1/Si''
     = Inr [Fin 200] \<and>
   calculate_mci no_float [ex_row] [(''Pb'', Some (rnd (1 / 100))), (''Cd'', Some (Fin 0))]
     = Inr [Fin 2] \<and>
   calculate_pi_table no_float [ex_row] [(''Pb'', Some (rnd (1 / 100))), (''Cd'', Some (Fin 0))]
     = Inr [(''PI_Pb'', [Fin 2]), (''PI_Cd'', [NaN])]"
  using zero_standard_excluded [of "[(''Pb'', Some (rnd (1 / 100)))]" "''Cd''" "[]" "[ex_row]"
      no_float "''1/Si''"]
  by (auto simp: rnd_eval ex_row_def scalar_table_def scalar_cell_def row_get_def
      calculate_hmpi_def hmpi_row_def hmpi_metal_def safe_get_def dict_get_def
      calculate_mci_def row_mci_def mci_metal_def
      calculate_pi_table_def pi_column_def pi_cell_def)

text \<open>
  With the standard -0.01 for lead and the concentration 0.02, the metal contributes -2 to
  MCI and -200 to HMPI (without it both are not-a-number), and its PI is -2.
\<close>

theorem negative_standard_counterexample:
  "calculate_mci no_float [pb_row] neg_limits = Inr [Fin (- 2)] \<and>
   calculate_mci no_float [pb_row] [] = Inr [NaN] \<and>
   calculate_hmpi no_float [pb_row] neg_limits ''equal'' = Inr [Fin (- 200)] \<and>
   calculate_hmpi no_float [pb_row] [] ''equal'' = Inr [NaN] \<and>
   calculate_pi_table no_float [pb_row] neg_limits = Inr [(''PI_Pb'', [Fin (- 2)])]"
  by (simp add: rnd_eval neg_limits_def pb_row_def
      calculate_hmpi_def hmpi_row_def hmpi_metal_def safe_get_def dict_get_def row_get_def
      calculate_mci_def row_mci_def mci_metal_def
      calculate_pi_table_def pi_column_def pi_cell_def)

section \<open>MCI and the PI table\<close>

lemma spec_pi_table_nth:
  "j < length limits \<Longrightarrow> i < length df \<Longrightarrow>
   spec_pi_table pf df limits ! j = (''PI_'' @ fst (limits ! j), map (spec_pi pf (limits ! j)) df) \<and>
   snd (spec_pi_table pf df limits ! j) ! i = spec_pi pf (limits ! j) (df ! i)"
  by (simp add: spec_pi_table_def)

lemma filter_nth:
  "filter P xs = map ((!) xs) (filter (\<lambda>j. P (xs ! j)) [0..<length xs])"
proof -
  have "filter P xs = filter P (map ((!) xs) [0..<length xs])"
    by (simp add: map_nth)
  also have "\<dots> = map ((!) xs) (filter (P \<circ> (!) xs) [0..<length xs])"
    by (rule filter_map)
  finally show ?thesis by (simp add: comp_def)
qed

lemma contributing_pi:
  "map (\<lambda>(c, s). ratio c s) (contributing pf row limits) =
     map (\<lambda>item. spec_pi pf item row) (filter (\<lambda>item. contrib pf row item \<noteq> None) limits)"
  by (induction limits) (auto simp: contributing_def contributing_Cons spec_pi_def split: option.splits)

text \<open>
  C4, as the code has it: for every row \<open>calculate_mci\<close> returns the sum of \<open>Ci / Si\<close> over
  exactly the metals whose concentration is numeric and whose standard is present and not
  zero (a negative standard counts), and not-a-number when there is no such metal; the
  sum is the sum of the PI values of those metals. \<open>calculate_pi_table\<close> holds \<open>Ci / Si\<close>
  for each of them and not-a-number for the others. Neither function takes a weighting
  scheme.
\<close>

theorem calculate_mci_sum:
  assumes "distinct (map fst limits)" "scalar_table df limits" "i < length df"
  shows "\<exists>out cols.
    calculate_mci pf df limits = Inr out \<and> length out = length df \<and>
    calculate_pi_table pf df limits = Inr cols \<and> length cols = length limits \<and>
    out ! i = (if contributing pf (df ! i) limits = [] then NaN
               else fsum (map (\<lambda>(c, s). ratio c s) (contributing pf (df ! i) limits))) \<and>
    (\<forall>j < length limits.
       fst (cols ! j) = ''PI_'' @ fst (limits ! j) \<and> length (snd (cols ! j)) = length df \<and>
       snd (cols ! j) ! i =
         (case contrib pf (df ! i) (limits ! j) of None \<Rightarrow> NaN | Some (c, s) \<Rightarrow> ratio c s)) \<and>
    map (\<lambda>(c, s). ratio c s) (contributing pf (df ! i) limits) =
      map (\<lambda>j. snd (cols ! j) ! i)
        (filter (\<lambda>j. contrib pf (df ! i) (limits ! j) \<noteq> None) [0..<length limits])"
proof -
  let ?cols = "spec_pi_table pf df limits"
  have pi: "\<forall>j < length limits.
       fst (?cols ! j) = ''PI_'' @ fst (limits ! j) \<and> length (snd (?cols ! j)) = length df \<and>
       snd (?cols ! j) ! i =
         (case contrib pf (df ! i) (limits ! j) of None \<Rightarrow> NaN | Some (c, s) \<Rightarrow> ratio c s)"
    using assms(3) by (simp add: spec_pi_table_def spec_pi_def)
  have "filter (\<lambda>item. contrib pf (df ! i) item \<noteq> None) limits =
      map ((!) limits) (filter (\<lambda>j. contrib pf (df ! i) (limits ! j) \<noteq> None) [0..<length limits])"
    by (rule filter_nth)
  then have s: "map (\<lambda>(c, s). ratio c s) (contributing pf (df ! i) limits) =
      map (\<lambda>j. snd (?cols ! j) ! i)
        (filter (\<lambda>j. contrib pf (df ! i) (limits ! j) \<noteq> None) [0..<length limits])"
    using assms(3) by (simp add: contributing_pi spec_pi_table_def comp_def cong: map_cong)
  show ?thesis
    using assms(3) pi s
    by (simp add: calculate_mci_scalar [OF assms(1,2)] calculate_pi_table_scalar [OF assms(2)]
        spec_mci_def) (simp add: spec_pi_table_def)
qed

theorem calculate_mci_sum_witness:
  "calculate_mci no_float [ex_row] ex_limits = Inr [Fin 4] \<and>
   calculate_pi_table no_float [ex_row] ex_limits = Inr [(''PI_Pb'', [Fin 2]), (''PI_Cd'', [Fin 2])]"
proof -
  have e: "calculate_mci no_float [ex_row] ex_limits = Inr [Fin 4] \<and>
     calculate_pi_table no_float [ex_row] ex_limits = Inr [(''PI_Pb'', [Fin 2]), (''PI_Cd'', [Fin 2])]"
    by (simp add: rnd_eval ex_limits_def ex_row_def
        calculate_mci_def row_mci_def mci_metal_def safe_get_def dict_get_def row_get_def
        calculate_pi_table_def pi_column_def pi_cell_def)
  have h: "distinct (map fst ex_limits)" "scalar_table [ex_row] ex_limits" "0 < length [ex_row]"
    by (simp_all add: ex_limits_def ex_row_def scalar_table_def scalar_cell_def row_get_def)
  from calculate_mci_sum [OF h, of no_float] e show ?thesis by simp
qed

text \<open>
  With the standard of cadmium at -0.003 the metal enters the sum: MCI is 2 - 2 = 0, not
  the 2 that lead alone gives, and PI_Cd is -2.
\<close>

theorem negative_standard_in_mci_counterexample:
  "calculate_mci no_float [ex_row] mixed_limits = Inr [Fin 0] \<and>
   calculate_mci no_float [ex_row] pb_limits = Inr [Fin 2] \<and>
   calculate_pi_table no_float [ex_row] mixed_limits =
     Inr [(''PI_Pb'', [Fin 2]), (''PI_Cd'', [Fin (- 2)])]"
  by (simp add: rnd_eval mixed_limits_def pb_limits_def ex_row_def
      calculate_mci_def row_mci_def mci_metal_def safe_get_def dict_get_def row_get_def
      calculate_pi_table_def pi_column_def pi_cell_def)

section \<open>Rows without a contribution\<close>

lemma contributing_none:
  assumes "\<forall>item\<in>set limits. get_numeric pf row (fst item) = None \<or> snd item = None \<or>
     snd item = Some (Fin 0)"
  shows "contributing pf row limits = []"
  using assms
  by (induction limits) (auto simp: contributing_def contributing_Cons contrib_def split: option.splits)

text \<open>
  C5, as the code has it: in a row in which every tracked metal has a concentration that
  is missing or not coercible, or a standard that is missing or zero, HMPI and MCI are
  not-a-number, so is every PI of the row, and both categories are Unknown. The row stays
  in the output. A negative standard does not make a metal invalid.
\<close>

theorem no_contribution_undefined:
  assumes "distinct (map fst limits)" "scalar_table df limits" "i < length df"
    "\<forall>item\<in>set limits. safe_get pf (df ! i) (fst item) = Inr None \<or> snd item = None \<or>
       snd item = Some (Fin 0)"
  shows "\<exists>h mc cols.
    calculate_hmpi pf df limits weight_scheme = Inr h \<and> length h = length df \<and>
    calculate_mci pf df limits = Inr mc \<and> length mc = length df \<and>
    calculate_pi_table pf df limits = Inr cols \<and> length cols = length limits \<and>
    h ! i = NaN \<and> mc ! i = NaN \<and>
    (\<forall>j < length limits. length (snd (cols ! j)) = length df \<and> snd (cols ! j) ! i = NaN) \<and>
    categorize_hmpi (h ! i) = ''Unknown'' \<and> categorize_mci (mc ! i) = ''Unknown''"
proof -
  have g: "\<forall>item\<in>set limits. get_numeric pf (df ! i) (fst item) = None \<or> snd item = None \<or>
       snd item = Some (Fin 0)"
  proof
    fix item assume "item \<in> set limits"
    with assms(4) have "safe_get pf (df ! i) (fst item) = Inr None \<or> snd item = None \<or>
       snd item = Some (Fin 0)" by blast
    then show "get_numeric pf (df ! i) (fst item) = None \<or> snd item = None \<or>
       snd item = Some (Fin 0)"
      using safe_get_Inr [of pf "df ! i" "fst item" None] by blast
  qed
  then have c: "contributing pf (df ! i) limits = []"
    by (rule contributing_none)
  have n: "\<forall>j < length limits. contrib pf (df ! i) (limits ! j) = None"
  proof (intro allI impI)
    fix j assume "j < length limits"
    then have "limits ! j \<in> set limits" by simp
    then have "contributing pf (df ! i) [limits ! j] = []"
      using g by (intro contributing_none) simp
    then show "contrib pf (df ! i) (limits ! j) = None"
      by (simp add: contributing_Cons contributing_def split: option.splits)
  qed
  show ?thesis
    using assms(3) c n
    by (simp add: calculate_hmpi_scalar [OF assms(1,2)] calculate_mci_scalar [OF assms(1,2)]
        calculate_pi_table_scalar [OF assms(2)] spec_hmpi_def spec_mci_def fsum_def
        categorize_hmpi_def categorize_mci_def)
       (simp add: spec_pi_table_def spec_pi_def)
qed

theorem no_contribution_undefined_witness:
  "calculate_hmpi no_float [empty_row] pb_limits ''1/Si'' = Inr [NaN] \<and>
   calculate_mci no_float [empty_row] pb_limits = Inr [NaN] \<and>
   calculate_pi_table no_float [empty_row] pb_limits = Inr [(''PI_Pb'', [NaN])] \<and>
   categorize_hmpi NaN = ''Unknown'' \<and> categorize_mci NaN = ''Unknown''"
proof -
  have e: "calculate_hmpi no_float [empty_row] pb_limits ''1/Si'' = Inr [NaN] \<and>
     calculate_mci no_float [empty_row] pb_limits = Inr [NaN] \<and>
     calculate_pi_table no_float [empty_row] pb_limits = Inr [(''PI_Pb'', [NaN])] \<and>
     categorize_hmpi NaN = ''Unknown'' \<and> categorize_mci NaN = ''Unknown''"
    by (simp add: rnd_eval pb_limits_def empty_row_def categorize_hmpi_def categorize_mci_def
        calculate_hmpi_def hmpi_row_def hmpi_metal_def
        calculate_mci_def row_mci_def mci_metal_def safe_get_def dict_get_def row_get_def
        calculate_pi_table_def pi_column_def pi_cell_def)
  have h: "distinct (map fst pb_limits)" "scalar_table [empty_row] pb_limits"
    "0 < length [empty_row]"
    "\<forall>item\<in>set pb_limits. safe_get no_float ([empty_row] ! 0) (fst item) = Inr None \<or>
       snd item = None \<or> snd item = Some (Fin 0)"
    by (simp_all add: pb_limits_def empty_row_def scalar_table_def scalar_cell_def row_get_def
        safe_get_def)
  from no_contribution_undefined [OF h, of "''1/Si''"] e show ?thesis by simp
qed

text \<open>
  Lead with the standard -0.01 is the only tracked metal, so no tracked metal has a valid
  standard; yet MCI is -2, in category Safe, HMPI under equal weights is -200, and PI is -2.
\<close>

theorem negative_standard_defined_counterexample:
  "calculate_mci no_float [ex_row] neg_limits = Inr [Fin (- 2)] \<and>
   categorize_mci (Fin (- 2)) = ''Safe'' \<and>
   calculate_hmpi no_float [ex_row] neg_limits ''equal'' = Inr [Fin (- 200)] \<and>
   categorize_hmpi (Fin (- 200)) = ''Safe'' \<and>
   calculate_pi_table no_float [ex_row] neg_limits = Inr [(''PI_Pb'', [Fin (- 2)])]"
  by (simp add: rnd_eval neg_limits_def ex_row_def categorize_hmpi_def categorize_mci_def
      calculate_hmpi_def hmpi_row_def hmpi_metal_def
      calculate_mci_def row_mci_def mci_metal_def safe_get_def dict_get_def row_get_def
      calculate_pi_table_def pi_column_def pi_cell_def)

section \<open>Changing the weighting scheme\<close>

text \<open>
  C6, as the code has it: \<open>calculate_mci\<close> and \<open>calculate_pi_table\<close> do not take the
  weighting scheme, so their outputs do not change with it. The HMPI of a row whose
  contributing metals have differing standards can change: under the limits Pb 0.01,
  Cd 0.003 the row Pb 0.02, Cd 0.003 has the HMPI 123.07692307692307 under "1/Si" and
  150.0 under "equal". It does not change in every such row.
\<close>

theorem weight_scheme_change:
  "snd (engine_outputs pf df limits ''1/Si'') = snd (engine_outputs pf df limits ''equal'') \<and>
   contributing no_float ex_row2 ex_limits =
     [(rnd (2 / 100), rnd (1 / 100)), (rnd (3 / 1000), rnd (3 / 1000))] \<and>
   rnd (1 / 100) \<noteq> rnd (3 / 1000) \<and>
   calculate_hmpi no_float [ex_row2] ex_limits ''1/Si'' = Inr [Fin (4330384257087015 / 2 ^ 45)] \<and>
   calculate_hmpi no_float [ex_row2] ex_limits ''equal'' = Inr [Fin 150]"
proof -
  have m: "snd (engine_outputs pf df limits ''1/Si'') = snd (engine_outputs pf df limits ''equal'')"
    by (simp add: engine_outputs_def)
  have c: "contributing no_float ex_row2 ex_limits =
     [(rnd (2 / 100), rnd (1 / 100)), (rnd (3 / 1000), rnd (3 / 1000))] \<and>
     rnd (1 / 100) \<noteq> rnd (3 / 1000)"
    by (simp add: ex_limits_def ex_row2_def contributing_def map_filter_simps contrib_def
        get_numeric_def row_get_def rnd_eval)
  have h: "calculate_hmpi no_float [ex_row2] ex_limits ''1/Si'' =
       Inr [Fin (4330384257087015 / 2 ^ 45)] \<and>
     calculate_hmpi no_float [ex_row2] ex_limits ''equal'' = Inr [Fin 150]"
    by (simp add: ex_limits_def ex_row2_def
        calculate_hmpi_def hmpi_row_def hmpi_metal_def safe_get_def dict_get_def row_get_def
        rnd_eval)
  from m c h show ?thesis by simp
qed

text \<open>
  The scenario of the specification: lead and cadmium both contribute, their standards
  0.01 and 0.003 differ, and HMPI is 200.0 under both schemes.
\<close>

theorem weight_scheme_counterexample:
  "contributing no_float ex_row ex_limits =
     [(rnd (2 / 100), rnd (1 / 100)), (rnd (6 / 1000), rnd (3 / 1000))] \<and>
   rnd (1 / 100) \<noteq> rnd (3 / 1000) \<and>
   calculate_hmpi no_float [ex_row] ex_limits ''1/Si'' = Inr [Fin 200] \<and>
   calculate_hmpi no_float [ex_row] ex_limits ''equal'' = Inr [Fin 200]"
proof -
  have c: "contributing no_float ex_row ex_limits =
     [(rnd (2 / 100), rnd (1 / 100)), (rnd (6 / 1000), rnd (3 / 1000))] \<and>
     rnd (1 / 100) \<noteq> rnd (3 / 1000)"
    by (simp add: ex_limits_def ex_row_def contributing_def map_filter_simps contrib_def
        get_numeric_def row_get_def rnd_eval)
  have h: "calculate_hmpi no_float [ex_row] ex_limits ''1/Si'' = Inr [Fin 200] \<and>
     calculate_hmpi no_float [ex_row] ex_limits ''equal'' = Inr [Fin 200]"
    by (simp add: ex_limits_def ex_row_def
        calculate_hmpi_def hmpi_row_def hmpi_metal_def safe_get_def dict_get_def row_get_def
        rnd_eval)
  from c h show ?thesis by simp
qed

section \<open>Cells that make the engine raise\<close>

text \<open>
  C7: the index computations are meant never to raise for a problem in a row. They do
  not on a table whose tracked cells are None, numbers, strings or other scalars
  (\<open>calculate_hmpi_scalar\<close>, \<open>calculate_mci_scalar\<close>, \<open>calculate_pi_table_scalar\<close> above). On a
  cell that holds a list or an array the test \<open>pd.isna(val)\<close> of \<open>_safe_get\<close>, which stands
  outside the \<open>try\<close>, raises ValueError, and all three functions raise with it.
\<close>

theorem array_cell_raises:
  "safe_get no_float array_row ''Pb'' = Inl ValueError \<and>
   calculate_hmpi no_float [array_row] pb_limits ''1/Si'' = Inl ValueError \<and>
   calculate_mci no_float [array_row] pb_limits = Inl ValueError \<and>
   calculate_pi_table no_float [array_row] pb_limits = Inl ValueError"
  by (simp add: array_row_def pb_limits_def
      calculate_hmpi_def hmpi_row_def hmpi_metal_def safe_get_def dict_get_def row_get_def
      calculate_mci_def row_mci_def mci_metal_def
      calculate_pi_table_def pi_column_def pi_cell_def)

section \<open>Rows are computed one by one\<close>

lemma map_err_nth:
  "map_err f xs = Inr ys \<Longrightarrow> length ys = length xs \<and> (\<forall>i < length xs. f (xs ! i) = Inr (ys ! i))"
  by (simp add: map_err_all2 list_all2_conv_all_nth)

text \<open>
  C8: on every table (whose tracked cells are scalars, so that the functions return)
  \<open>calculate_hmpi\<close> and \<open>calculate_mci\<close> return one value for each row of the input, in the
  order of the input, and \<open>calculate_pi_table\<close> one column for each metal of the limits, in
  their order, with one entry for each row. The value at position \<open>i\<close> is what the code
  computes from row \<open>i\<close> alone: \<open>hmpi_row\<close>, \<open>row_mci\<close> and \<open>pi_cell\<close> take no other row.
\<close>

theorem outputs_aligned_with_rows:
  assumes "distinct (map fst limits)" "scalar_table df limits"
  shows "\<exists>h mc cols.
    calculate_hmpi pf df limits weight_scheme = Inr h \<and> length h = length df \<and>
    calculate_mci pf df limits = Inr mc \<and> length mc = length df \<and>
    calculate_pi_table pf df limits = Inr cols \<and>
    map fst cols = map (\<lambda>item. ''PI_'' @ fst item) limits \<and>
    (\<forall>i < length df.
       hmpi_row pf limits weight_scheme (df ! i) = Inr (h ! i) \<and>
       row_mci pf limits (df ! i) = Inr (mc ! i) \<and>
       (\<forall>j < length limits.
          length (snd (cols ! j)) = length df \<and>
          pi_cell pf (fst (limits ! j)) (snd (limits ! j)) (df ! i) = Inr (snd (cols ! j) ! i)))"
proof -
  obtain h where h: "calculate_hmpi pf df limits weight_scheme = Inr h"
    by (simp add: calculate_hmpi_scalar [OF assms])
  obtain mc where mc: "calculate_mci pf df limits = Inr mc"
    by (simp add: calculate_mci_scalar [OF assms])
  obtain cols where cols: "calculate_pi_table pf df limits = Inr cols"
    by (simp add: calculate_pi_table_scalar [OF assms(2)])
  note hn = map_err_nth [OF h [unfolded calculate_hmpi_def]]
  note mn = map_err_nth [OF mc [unfolded calculate_mci_def]]
  note cn = map_err_nth [OF cols [unfolded calculate_pi_table_def]]
  have names: "map fst cols = map (\<lambda>item. ''PI_'' @ fst item) limits"
    using cols by (auto simp: calculate_pi_table_scalar [OF assms(2)] spec_pi_table_def comp_def)
  have pi: "\<forall>i < length df. \<forall>j < length limits.
      length (snd (cols ! j)) = length df \<and>
      pi_cell pf (fst (limits ! j)) (snd (limits ! j)) (df ! i) = Inr (snd (cols ! j) ! i)"
  proof (intro allI impI)
    fix i j assume i: "i < length df" and j: "j < length limits"
    from cn j have "pi_column pf df (limits ! j) = Inr (cols ! j)" by simp
    then have "map_err (pi_cell pf (fst (limits ! j)) (snd (limits ! j))) df = Inr (snd (cols ! j))"
      by (cases "cols ! j") (auto simp: pi_column_def split: sum.splits)
    from map_err_nth [OF this] i
    show "length (snd (cols ! j)) = length df \<and>
      pi_cell pf (fst (limits ! j)) (snd (limits ! j)) (df ! i) = Inr (snd (cols ! j) ! i)"
      by simp
  qed
  show ?thesis
    using h mc cols hn mn names pi by auto
qed

theorem outputs_aligned_with_rows_witness:
  "calculate_hmpi no_float [empty_row, ex_row] ex_limits ''1/Si'' = Inr [NaN, Fin 200] \<and>
   calculate_mci no_float [empty_row, ex_row] ex_limits = Inr [NaN, Fin 4] \<and>
   calculate_pi_table no_float [empty_row, ex_row] ex_limits =
     Inr [(''PI_Pb'', [NaN, Fin 2]), (''PI_Cd'', [NaN, Fin 2])]"
proof -
  have e: "calculate_hmpi no_float [empty_row, ex_row] ex_limits ''1/Si'' = Inr [NaN, Fin 200] \<and>
     calculate_mci no_float [empty_row, ex_row] ex_limits = Inr [NaN, Fin 4] \<and>
     calculate_pi_table no_float [empty_row, ex_row] ex_limits =
       Inr [(''PI_Pb'', [NaN, Fin 2]), (''PI_Cd'', [NaN, Fin 2])]"
    by (simp add: rnd_eval ex_limits_def ex_row_def empty_row_def
        calculate_hmpi_def hmpi_row_def hmpi_metal_def safe_get_def dict_get_def row_get_def
        calculate_mci_def row_mci_def mci_metal_def
        calculate_pi_table_def pi_column_def pi_cell_def)
  have h: "distinct (map fst ex_limits)" "scalar_table [empty_row, ex_row] ex_limits"
    by (simp_all add: ex_limits_def ex_row_def empty_row_def scalar_table_def scalar_cell_def
        row_get_def)
  from outputs_aligned_with_rows [OF h, of no_float "''1/Si''"] e show ?thesis by simp
qed

section \<open>The effect of validation on the frame\<close>

lemma coerce_column_numeric: "numeric (coerce_column pn c)"
  by (simp add: coerce_column_def)

lemma coerce_column_idem: "coerce_column pn (coerce_column pn c) = coerce_column pn c"
  by (simp add: coerce_column_def)

lemma validate_column_frame:
  "fst (validate_column pn col (df, rep)) =
     df\<lparr>columns := (columns df)(col := map_option (coerce_column pn) (columns df col))\<rparr>"
  by (auto simp: to_numeric_def coerce_column_def fun_upd_idem split: option.splits)

lemma validate_loop_frame:
  "nrows (fst (fold (validate_column pn) req (df, rep))) = nrows df \<and>
   columns (fst (fold (validate_column pn) req (df, rep))) =
     (\<lambda>m. if m \<in> set req then map_option (coerce_column pn) (columns df m) else columns df m)"
proof (induction req arbitrary: df rep)
  case Nil
  then show ?case by simp
next
  case (Cons x xs)
  obtain df1 rep1 where s: "validate_column pn x (df, rep) = (df1, rep1)"
    by (cases "validate_column pn x (df, rep)")
  have df1: "df1 = df\<lparr>columns := (columns df)(x := map_option (coerce_column pn) (columns df x))\<rparr>"
    using validate_column_frame [of pn x df rep] s by simp
  have f: "fold (validate_column pn) (x # xs) (df, rep) = fold (validate_column pn) xs (df1, rep1)"
    by (simp add: s del: validate_column.simps)
  show ?case
    unfolding f using Cons.IH [of df1 rep1]
    by (auto simp: df1 fun_eq_iff option.map_comp comp_def coerce_column_idem)
qed

lemma validate_column_report:
  "non_numeric (snd (validate_column pn x (df, rep))) =
     (if \<exists>c. columns df x = Some c \<and> \<not> numeric c then non_numeric rep @ [x] else non_numeric rep)"
  by (auto simp: to_numeric_def split: option.splits)

lemma validate_loop_non_numeric:
  "m \<in> set (non_numeric (snd (fold (validate_column pn) req (df, rep)))) \<longleftrightarrow>
     m \<in> set (non_numeric rep) \<or> (m \<in> set req \<and> (\<exists>c. columns df m = Some c \<and> \<not> numeric c))"
proof (induction req arbitrary: df rep)
  case Nil
  then show ?case by simp
next
  case (Cons x xs)
  obtain df1 rep1 where s: "validate_column pn x (df, rep) = (df1, rep1)"
    by (cases "validate_column pn x (df, rep)")
  have df1: "columns df1 = (columns df)(x := map_option (coerce_column pn) (columns df x))"
    using validate_column_frame [of pn x df rep] s by simp
  have rep1: "non_numeric rep1 =
      (if \<exists>c. columns df x = Some c \<and> \<not> numeric c then non_numeric rep @ [x] else non_numeric rep)"
    using validate_column_report [of pn x df rep] s by simp
  have f: "fold (validate_column pn) (x # xs) (df, rep) = fold (validate_column pn) xs (df1, rep1)"
    by (simp add: s del: validate_column.simps)
  have x: "\<not> (\<exists>c. columns df1 x = Some c \<and> \<not> numeric c)"
    by (auto simp: df1 coerce_column_numeric)
  have o: "columns df1 m = columns df m" if "m \<noteq> x"
    using that by (simp add: df1)
  show ?case
  proof (cases "m = x")
    case True
    then show ?thesis
      unfolding f Cons.IH [of df1 rep1] using x by (auto simp: rep1)
  next
    case False
    then show ?thesis
      unfolding f Cons.IH [of df1 rep1] by (auto simp: rep1 o)
  qed
qed

lemma validate_loop_rows: "rows (snd (fold (validate_column pn) req (df, rep))) = rows rep"
proof (induction req arbitrary: df rep)
  case Nil
  then show ?case by simp
next
  case (Cons x xs)
  obtain df1 rep1 where s: "validate_column pn x (df, rep) = (df1, rep1)"
    by (cases "validate_column pn x (df, rep)")
  have "rows rep1 = rows rep"
    using s by (auto simp: to_numeric_def split: option.splits if_splits)
  moreover have "fold (validate_column pn) (x # xs) (df, rep) =
      fold (validate_column pn) xs (df1, rep1)"
    by (simp add: s del: validate_column.simps)
  ultimately show ?case using Cons.IH [of df1 rep1] by simp
qed

lemma cell_abs_num: "is_num v \<Longrightarrow> \<exists>x. cell_abs v = Inr x"
proof (cases v)
  case (CNum x)
  then show ?thesis by (cases x) simp_all
qed simp_all

lemma map_err_total: "\<forall>x\<in>set xs. \<exists>y. f x = Inr y \<Longrightarrow> \<exists>ys. map_err f xs = Inr ys"
  by (induction xs) auto

lemma magnitude_of_num: "list_all is_num (cells c) \<Longrightarrow> \<exists>v. magnitude_of c = Inr v"
proof -
  assume a: "list_all is_num (cells c)"
  have "\<forall>v\<in>set (filter (\<lambda>v. \<not> cell_isna v) (cells c)). \<exists>x. cell_abs v = Inr x"
    using a by (auto simp: list_all_iff intro: cell_abs_num)
  from map_err_total [OF this] show ?thesis
    by (auto simp: magnitude_of_def Let_def)
qed

lemma magnitude_loop_total:
  "\<forall>m\<in>set req. \<forall>c. columns df m = Some c \<longrightarrow> list_all is_num (cells c) \<Longrightarrow>
   \<exists>mag. fold_err (magnitude_step df) req acc = Inr mag"
proof (induction req arbitrary: acc)
  case Nil
  then show ?case by simp
next
  case (Cons x xs)
  have "\<exists>acc'. magnitude_step df x acc = Inr acc'"
  proof (cases "columns df x")
    case None
    then show ?thesis by (simp add: magnitude_step_def)
  next
    case (Some c)
    with Cons.prems have "list_all is_num (cells c)" by simp
    from magnitude_of_num [OF this] Some show ?thesis
      by (auto simp: magnitude_step_def)
  qed
  then obtain acc' where "magnitude_step df x acc = Inr acc'" by blast
  with Cons show ?case by simp
qed

lemma coerce_column_num:
  "numeric c \<longrightarrow> list_all is_num (cells c) \<Longrightarrow> list_all is_num (cells (coerce_column pn c))"
  by (simp add: coerce_column_def list_all_iff)

text \<open>
  C10: \<open>validate_dataframe\<close> changes the frame it is given. A required column that is
  present and not of numeric dtype is overwritten by its numeric coercion, in which every
  entry that cannot be converted is not-a-number, and its name is in the list
  \<open>non_numeric\<close> of the report. The number of rows and the columns that are not required
  stay as they were. The call returns when the required columns of numeric dtype hold
  numbers.
\<close>

theorem validate_dataframe_coerces_in_place:
  assumes "col \<in> set req" "columns df col = Some c" "\<not> numeric c"
    and wf: "\<forall>m\<in>set req. \<forall>c'. columns df m = Some c' \<and> numeric c' \<longrightarrow> list_all is_num (cells c')"
  shows "\<exists>df' valid rep. validate_dataframe pn df req = (df', Inr (valid, rep)) \<and>
     columns df' col = Some \<lparr>numeric = True, cells = map (\<lambda>v. CNum (coerce_cell pn v)) (cells c)\<rparr> \<and>
     col \<in> set (non_numeric rep) \<and>
     nrows df' = nrows df \<and> rows rep = nrows df \<and>
     (\<forall>m. m \<notin> set req \<longrightarrow> columns df' m = columns df m) \<and>
     (\<forall>v. (\<forall>x. py_float pn v \<noteq> Inr x) \<longrightarrow> coerce_cell pn v = NaN)"
proof -
  let ?rep0 = "\<lparr>missing_columns = [], non_numeric = [], missing_coords = 0,
                     rows = nrows df, median_magnitude = []\<rparr>"
  obtain df1 rep1 where s: "fold (validate_column pn) req (df, ?rep0) = (df1, rep1)"
    by (cases "fold (validate_column pn) req (df, ?rep0)")
  have fr: "nrows df1 = nrows df"
    "columns df1 = (\<lambda>m. if m \<in> set req then map_option (coerce_column pn) (columns df m) else columns df m)"
    using validate_loop_frame [of pn req df ?rep0] s by simp_all
  have nn: "col \<in> set (non_numeric rep1)"
    using validate_loop_non_numeric [of col pn req df ?rep0] s assms(1-3) by simp
  have rw: "rows rep1 = nrows df"
    using validate_loop_rows [of pn req df ?rep0] s by simp
  have "\<forall>m\<in>set req. \<forall>c. columns df1 m = Some c \<longrightarrow> list_all is_num (cells c)"
    using wf by (auto simp: fr(2) intro!: coerce_column_num)
  from magnitude_loop_total [OF this]
  obtain mag where mag: "fold_err (magnitude_step df1) req [] = Inr mag" by blast
  have cell: "\<forall>v. (\<forall>x. py_float pn v \<noteq> Inr x) \<longrightarrow> coerce_cell pn v = NaN"
  proof (intro allI impI)
    fix v assume "\<forall>x. py_float pn v \<noteq> Inr x"
    then show "coerce_cell pn v = NaN"
      by (cases v) (auto split: option.splits)
  qed
  have col: "columns df1 col =
      Some \<lparr>numeric = True, cells = map (\<lambda>v. CNum (coerce_cell pn v)) (cells c)\<rparr>"
    using assms(1-3) by (simp add: fr(2) coerce_column_def)
  show ?thesis
    using s mag nn rw fr(1) col cell
    by (auto simp: validate_dataframe_def Let_def fr(2) split: option.splits)
qed

theorem validate_dataframe_coerces_in_place_witness:
  "validate_dataframe ex_parser text_frame [''Pb''] =
     (\<lparr>nrows = 2, columns = [''Pb'' \<mapsto>
         \<lparr>numeric = True, cells = [CNum (rnd (2 / 100)), CNum NaN]\<rparr>]\<rparr>,
      Inr (True, \<lparr>missing_columns = [], non_numeric = [''Pb''], missing_coords = 0, rows = 2,
             median_magnitude = [(''Pb'', rnd (2 / 100))]\<rparr>))"
proof -
  have e: "validate_dataframe ex_parser text_frame [''Pb''] =
     (\<lparr>nrows = 2, columns = [''Pb'' \<mapsto>
         \<lparr>numeric = True, cells = [CNum (rnd (2 / 100)), CNum NaN]\<rparr>]\<rparr>,
      Inr (True, \<lparr>missing_columns = [], non_numeric = [''Pb''], missing_coords = 0, rows = 2,
             median_magnitude = [(''Pb'', rnd (2 / 100))]\<rparr>))"
    by (simp add: rnd_eval validate_dataframe_def text_frame_def ex_parser_def to_numeric_def
        magnitude_step_def magnitude_of_def median_def Let_def)
  have h: "''Pb'' \<in> set [''Pb'']"
    "columns text_frame ''Pb'' = Some \<lparr>numeric = False, cells = [CStr ''0.02'', CStr ''n/d'']\<rparr>"
    "\<not> numeric \<lparr>numeric = False, cells = [CStr ''0.02'', CStr ''n/d'']\<rparr>"
    "\<forall>m\<in>set [''Pb'']. \<forall>c'. columns text_frame m = Some c' \<and> numeric c' \<longrightarrow>
       list_all is_num (cells c')"
    by (simp_all add: text_frame_def)
  from validate_dataframe_coerces_in_place [OF h, of ex_parser] e show ?thesis by simp
qed

end
